theory Spec2Isabelle
  imports Main "HOL-Library.Multiset" "HOL-Library.Sublist"
begin

section \<open>Roadmap projection engine of jiragitfluence\<close>

text \<open>
  The Go package \<open>generator\<close> turns Jira and GitHub issues into a roadmap. Go strings are
  byte strings and are modelled as \<open>string\<close>; Go's \<open>int\<close> is modelled as \<open>int\<close> (all
  the numbers of this development are list indices, calendar fields and small constants,
  far from the 64-bit limits). Record fields carry a short prefix naming their struct
  (\<open>ji_\<close> for \<open>models.JiraIssue\<close>, \<open>gh_\<close> for \<open>models.GitHubIssue\<close>, \<open>pr_\<close> for
  \<open>models.GitHubPR\<close>, \<open>md_\<close> for \<open>models.Metadata\<close>, \<open>ri_\<close> for \<open>RoadmapItem\<close>,
  \<open>ms_\<close> for \<open>Milestone\<close>, \<open>opt_\<close> for \<open>Options\<close>), since several structs share field
  names.
\<close>

subsection \<open>Status derivation and aggregation\<close>

definition deriveRoadmapStatus :: "string \<Rightarrow> string" where
  "deriveRoadmapStatus status =
     (if status = ''To Do'' \<or> status = ''Open'' \<or> status = ''Backlog'' then ''Planned''
      else if status = ''In Progress'' \<or> status = ''In Review'' then ''In Progress''
      else if status = ''Blocked'' \<or> status = ''Impediment'' then ''Blocked''
      else if status = ''Done'' \<or> status = ''Closed'' \<or> status = ''Resolved'' then ''Completed''
      else ''Planned'')"

definition deriveRoadmapStatusFromGitHub :: "string \<Rightarrow> string" where
  "deriveRoadmapStatusFromGitHub state =
     (if state = ''open'' then ''In Progress''
      else if state = ''closed'' then ''Completed''
      else ''Planned'')"

definition getRoadmapStatusColor :: "string \<Rightarrow> string" where
  "getRoadmapStatusColor status =
     (if status = ''Planned'' then ''#0052CC''
      else if status = ''In Progress'' then ''#36B37E''
      else if status = ''At Risk'' then ''#FF8B00''
      else if status = ''Blocked'' then ''#FF5630''
      else if status = ''Completed'' then ''#6554C0''
      else ''#0052CC'')"

text \<open>The map literal \<open>statusPriority\<close>; a Go map read at a missing key gives 0.\<close>

definition statusPriority :: "string \<Rightarrow> int" where
  "statusPriority s =
     (case map_of [(''Blocked'', 5), (''At Risk'', 4), (''In Progress'', 3),
                   (''Planned'', 2), (''Completed'', 1)] s of
        None \<Rightarrow> 0 | Some p \<Rightarrow> p)"

definition aggregateStatus :: "string \<Rightarrow> string \<Rightarrow> string" where
  "aggregateStatus currentStatus newStatus =
     (let currentPriority = statusPriority currentStatus;
          newPriority = statusPriority newStatus
      in if newPriority > currentPriority then newStatus else currentStatus)"

definition canonicalStatuses :: "string set" where
  "canonicalStatuses = {''Planned'', ''In Progress'', ''At Risk'', ''Blocked'', ''Completed''}"

subsection \<open>Go primitives used by the generator\<close>

text \<open>Go's integer division truncates towards zero; \<open>%\<close> is its remainder.\<close>

definition go_div :: "int \<Rightarrow> int \<Rightarrow> int" where
  "go_div a b = sgn a * sgn b * (\<bar>a\<bar> div \<bar>b\<bar>)"

definition go_mod :: "int \<Rightarrow> int \<Rightarrow> int" where
  "go_mod a b = a - b * go_div a b"

text \<open>\<open>fmt.Sprintf("%d", n)\<close>: the decimal digits of an integer, with a minus sign.\<close>

fun natToDec :: "nat \<Rightarrow> string" where
  "natToDec n = (if n < 10 then [char_of (48 + n)]
                 else natToDec (n div 10) @ [char_of (48 + n mod 10)])"

declare natToDec.simps [simp del]

definition itoa :: "int \<Rightarrow> string" where
  "itoa i = (if i < 0 then CHR ''-'' # natToDec (nat (- i)) else natToDec (nat i))"

text \<open>
  The conversion \<open>rune(x)\<close> keeps the low 32 bits as a signed number, and
  \<open>string(r)\<close> of a rune is its UTF-8 encoding, or the encoding of U+FFFD when the
  rune is not a valid code point.
\<close>

definition toRune :: "int \<Rightarrow> int" where
  "toRune x = (x + 2147483648) mod 4294967296 - 2147483648"

definition runeString :: "int \<Rightarrow> string" where
  "runeString r =
     (if r < 0 \<or> r > 1114111 \<or> (55296 \<le> r \<and> r \<le> 57343)
        then [char_of (239::int), char_of (191::int), char_of (189::int)]
      else if r < 128 then [char_of r]
      else if r < 2048 then [char_of (192 + r div 64), char_of (128 + r mod 64)]
      else if r < 65536
        then [char_of (224 + r div 4096), char_of (128 + (r div 64) mod 64),
              char_of (128 + r mod 64)]
      else [char_of (240 + r div 262144), char_of (128 + (r div 4096) mod 64),
            char_of (128 + (r div 64) mod 64), char_of (128 + r mod 64)])"

subsection \<open>Calendar time\<close>

text \<open>
  A \<open>time.Time\<close> is modelled by its calendar fields in one fixed location without
  zone transitions, as UTC is (so the zero time is the only time with the fields of
  1 January of year 1, and every local midnight exists): the year, the
  month (1 to 12), the day of the month and the nanoseconds since midnight. The
  generator reads times through \<open>Year\<close>, \<open>Month\<close>, \<open>Before\<close>, \<open>IsZero\<close>, \<open>AddDate\<close>
  and \<open>Format\<close> only, and builds them with \<open>time.Date\<close>. The years of the model are
  unbounded.
\<close>

record Time =
  Year :: int
  Month :: int
  Day :: int
  Nanos :: nat

definition isLeap :: "int \<Rightarrow> bool" where
  "isLeap y = (y mod 4 = 0 \<and> (y mod 100 \<noteq> 0 \<or> y mod 400 = 0))"

definition daysIn :: "int \<Rightarrow> int \<Rightarrow> int" where
  "daysIn y m =
     (if m = 2 then (if isLeap y then 29 else 28)
      else if m = 4 \<or> m = 6 \<or> m = 9 \<or> m = 11 then 30 else 31)"

definition nextMonth :: "int \<times> int \<Rightarrow> int \<times> int" where
  "nextMonth ym = (if snd ym \<ge> 12 then (fst ym + 1, 1) else (fst ym, snd ym + 1))"

definition prevMonth :: "int \<times> int \<Rightarrow> int \<times> int" where
  "prevMonth ym = (if snd ym \<le> 1 then (fst ym - 1, 12) else (fst ym, snd ym - 1))"

lemma daysIn_bounds: "28 \<le> daysIn y m" "daysIn y m \<le> 31"
  by (simp_all add: daysIn_def)

text \<open>
  \<open>time.Date\<close> accepts a month and a day outside their ranges and normalises them:
  month 13 is January of the next year, the 31st of a 30-day month is the 1st of the
  next month, day 0 is the last day of the month before.
\<close>

function normDay :: "int \<Rightarrow> int \<Rightarrow> int \<Rightarrow> int \<times> int \<times> int" where
  "normDay y m d =
     (if d < 1 then
        (let ym = prevMonth (y, m) in normDay (fst ym) (snd ym) (d + daysIn (fst ym) (snd ym)))
      else if d > daysIn y m then
        (let ym = nextMonth (y, m) in normDay (fst ym) (snd ym) (d - daysIn y m))
      else (y, m, d))"
  by pat_completeness auto
termination
proof (relation "measure (\<lambda>(y, m, d). if d < 1 then nat (1 - d) + 32 else nat d)", goal_cases)
  case 1
  then show ?case by simp
next
  case (2 y m d ym)
  have "daysIn (fst ym) (snd ym) \<le> 31" "28 \<le> daysIn (fst ym) (snd ym)"
    by (rule daysIn_bounds)+
  with 2 show ?case by auto
next
  case (3 y m d ym)
  have "28 \<le> daysIn y m" by (rule daysIn_bounds)
  with 3 show ?case by auto
qed

declare normDay.simps [simp del]

definition Date :: "int \<Rightarrow> int \<Rightarrow> int \<Rightarrow> nat \<Rightarrow> Time" where
  "Date y m d ns =
     (let y1 = y + (m - 1) div 12;
          m1 = (m - 1) mod 12 + 1;
          r = normDay y1 m1 d
      in \<lparr>Year = fst r, Month = fst (snd r), Day = snd (snd r), Nanos = ns\<rparr>)"

definition AddDate :: "Time \<Rightarrow> int \<Rightarrow> int \<Rightarrow> int \<Rightarrow> Time" where
  "AddDate t years months days = Date (Year t + years) (Month t + months) (Day t + days) (Nanos t)"

definition Before :: "Time \<Rightarrow> Time \<Rightarrow> bool" where
  "Before t u =
     (Year t < Year u \<or> (Year t = Year u \<and>
       (Month t < Month u \<or> (Month t = Month u \<and>
         (Day t < Day u \<or> (Day t = Day u \<and> Nanos t < Nanos u))))))"

text \<open>The zero \<open>time.Time{}\<close> is midnight of 1 January of year 1.\<close>

definition zeroTime :: Time where
  "zeroTime = \<lparr>Year = 1, Month = 1, Day = 1, Nanos = 0\<rparr>"

definition IsZero :: "Time \<Rightarrow> bool" where
  "IsZero t = (t = zeroTime)"

text \<open>The times that \<open>time.Date\<close> returns: month and day inside their ranges.\<close>

definition validTime :: "Time \<Rightarrow> bool" where
  "validTime t = (1 \<le> Month t \<and> Month t \<le> 12 \<and> 1 \<le> Day t \<and> Day t \<le> daysIn (Year t) (Month t))"

subsection \<open>The data model (package \<open>models\<close> and the roadmap structs)\<close>

record JiraIssue =
  ji_Key :: string
  ji_IssueType :: string
  ji_Summary :: string
  ji_Status :: string
  ji_Priority :: string
  ji_Assignee :: string
  ji_Reporter :: string
  ji_Team :: string
  ji_Labels :: "string list"
  ji_EpicLink :: string
  ji_CreatedDate :: Time
  ji_UpdatedDate :: Time
  ji_Description :: string
  ji_FixVersions :: "string list"
  ji_Watchers :: "string list"
  ji_URL :: string
  ji_PlannedStartDate :: "Time option"
  ji_PlannedEndDate :: "Time option"
  ji_Theme :: string
  ji_Initiative :: string
  ji_Dependencies :: "string list"
  ji_PriorityScore :: int
  ji_RoadmapStatus :: string
  ji_Milestone :: string
  ji_Quarter :: string

record GitHubIssue =
  gh_Title :: string
  gh_Number :: int
  gh_State :: string
  gh_Labels :: "string list"
  gh_Assignees :: "string list"
  gh_CreatedDate :: Time
  gh_UpdatedDate :: Time
  gh_URL :: string
  gh_Repository :: string
  gh_PlannedStartDate :: "Time option"
  gh_PlannedEndDate :: "Time option"
  gh_Theme :: string
  gh_Initiative :: string
  gh_Dependencies :: "string list"
  gh_PriorityScore :: int
  gh_RoadmapStatus :: string
  gh_Milestone :: string
  gh_Quarter :: string

record GitHubPR =
  pr_Title :: string
  pr_Number :: int
  pr_State :: string
  pr_Labels :: "string list"
  pr_Assignees :: "string list"
  pr_CreatedDate :: Time
  pr_UpdatedDate :: Time
  pr_URL :: string
  pr_Repository :: string
  pr_IsDraft :: bool
  pr_MergeStatus :: string

record Metadata =
  md_FetchTime :: Time
  md_JiraProjects :: "string list"
  md_GitHubRepos :: "string list"
  md_JiraJQL :: string
  md_GitHubLabels :: "string list"
  md_GitHubContentFilter :: string
  md_GitHubCreator :: string
  md_VersionLabel :: string
  md_RoadmapTimeframe :: string
  md_RoadmapGrouping :: string
  md_RoadmapView :: string
  md_RoadmapThemes :: "string list"
  md_RoadmapQuarters :: "string list"

record AggregatedData =
  JiraIssues :: "JiraIssue list"
  GitHubIssues :: "GitHubIssue list"
  GitHubPRs :: "GitHubPR list"
  Metadata :: Metadata

text \<open>A pointer field is an option: \<open>None\<close> is the nil pointer.\<close>

record RoadmapItem =
  ri_Type :: string
  ri_JiraIssue :: "JiraIssue option"
  ri_GitHubIssue :: "GitHubIssue option"
  ri_Status :: string
  ri_StartDate :: "Time option"
  ri_EndDate :: "Time option"

record Milestone =
  ms_Name :: string
  ms_TargetDate :: Time
  ms_Status :: string
  ms_Items :: "RoadmapItem list"

text \<open>What a Go run does instead of returning a value: a nil pointer dereference and
  an index outside a slice panic, and \<open>Generate\<close> returns an error for a format it does
  not know.\<close>

datatype error = NilPointerDereference | IndexOutOfRange | UnsupportedFormat string

subsection \<open>Normalising issues into roadmap items\<close>

text \<open>
  The two loops at the head of \<open>groupRoadmapItems\<close> build one item per Jira issue and
  one per GitHub issue; \<open>jiraRoadmapItem\<close> and \<open>githubRoadmapItem\<close> are their bodies and
  \<open>allItems\<close> is the slice of that name.
\<close>

definition jiraStartDate :: "JiraIssue \<Rightarrow> Time" where
  "jiraStartDate issue =
     (case ji_PlannedStartDate issue of None \<Rightarrow> ji_CreatedDate issue | Some d \<Rightarrow> d)"

definition jiraEndDate :: "JiraIssue \<Rightarrow> Time" where
  "jiraEndDate issue =
     (case ji_PlannedEndDate issue of
        Some d \<Rightarrow> d
      | None \<Rightarrow>
          if ji_Status issue = ''Done'' \<or> ji_Status issue = ''Closed'' \<or> ji_Status issue = ''Resolved''
          then ji_UpdatedDate issue
          else AddDate (jiraStartDate issue) 0 0 14)"

definition jiraRoadmapItem :: "JiraIssue \<Rightarrow> RoadmapItem" where
  "jiraRoadmapItem issue =
     \<lparr>ri_Type = ''jira'', ri_JiraIssue = Some issue, ri_GitHubIssue = None,
      ri_Status = (if ji_RoadmapStatus issue = [] then deriveRoadmapStatus (ji_Status issue)
                   else ji_RoadmapStatus issue),
      ri_StartDate = Some (jiraStartDate issue), ri_EndDate = Some (jiraEndDate issue)\<rparr>"

definition githubStartDate :: "GitHubIssue \<Rightarrow> Time" where
  "githubStartDate issue =
     (case gh_PlannedStartDate issue of None \<Rightarrow> gh_CreatedDate issue | Some d \<Rightarrow> d)"

definition githubEndDate :: "GitHubIssue \<Rightarrow> Time" where
  "githubEndDate issue =
     (case gh_PlannedEndDate issue of
        Some d \<Rightarrow> d
      | None \<Rightarrow>
          if gh_State issue = ''closed'' then gh_UpdatedDate issue
          else AddDate (githubStartDate issue) 0 0 14)"

definition githubRoadmapItem :: "GitHubIssue \<Rightarrow> RoadmapItem" where
  "githubRoadmapItem issue =
     \<lparr>ri_Type = ''github-issue'', ri_JiraIssue = None, ri_GitHubIssue = Some issue,
      ri_Status = (if gh_RoadmapStatus issue = [] then deriveRoadmapStatusFromGitHub (gh_State issue)
                   else gh_RoadmapStatus issue),
      ri_StartDate = Some (githubStartDate issue), ri_EndDate = Some (githubEndDate issue)\<rparr>"

definition allItems :: "AggregatedData \<Rightarrow> RoadmapItem list" where
  "allItems data = map jiraRoadmapItem (JiraIssues data) @ map githubRoadmapItem (GitHubIssues data)"

subsection \<open>Quarter placement\<close>

text \<open>The label that \<open>getItemQuarters\<close> builds for a date, digit by digit.\<close>

definition itemQuarterStr :: "Time \<Rightarrow> string" where
  "itemQuarterStr t =
     (let y = Year t; q = go_div (Month t - 1) 3 + 1
      in ''Q'' @ runeString (toRune (48 + q)) @ '' ''
         @ runeString (toRune (48 + go_div y 1000))
         @ runeString (toRune (48 + go_mod (go_div y 100) 10))
         @ runeString (toRune (48 + go_mod (go_div y 10) 10))
         @ runeString (toRune (48 + go_mod y 10)))"

text \<open>The loop over the axis: \<open>i\<close> is the index of the head of the remaining axis.\<close>

fun findQuarters :: "string list \<Rightarrow> int \<Rightarrow> string \<Rightarrow> string \<Rightarrow> int \<times> int \<Rightarrow> int \<times> int" where
  "findQuarters [] i startQStr endQStr se = se"
| "findQuarters (q # qs) i startQStr endQStr se =
     (let startQuarter = (if q = startQStr \<and> fst se = -1 then i else fst se);
          endQuarter = (if q = endQStr \<and> snd se = -1 then i else snd se)
      in findQuarters qs (i + 1) startQStr endQStr (startQuarter, endQuarter))"

definition getItemQuarters :: "RoadmapItem \<Rightarrow> string list \<Rightarrow> int \<times> int" where
  "getItemQuarters item quarters =
     (case (ri_StartDate item, ri_EndDate item) of
        (Some sd, Some ed) \<Rightarrow>
          (let se = findQuarters quarters 0 (itemQuarterStr sd) (itemQuarterStr ed) (-1, -1);
               startQuarter = (if fst se = -1 then 0 else fst se);
               endQuarter = (if snd se = -1 then int (length quarters) - 1 else snd se)
           in (startQuarter, endQuarter))
      | _ \<Rightarrow> (0, 0))"



subsection \<open>Concrete inputs\<close>

text \<open>Go's zero values of the issue structs, from which the example inputs are built.\<close>

definition zeroJiraIssue :: JiraIssue where
  "zeroJiraIssue =
     \<lparr>ji_Key = [], ji_IssueType = [], ji_Summary = [], ji_Status = [], ji_Priority = [],
      ji_Assignee = [], ji_Reporter = [], ji_Team = [], ji_Labels = [], ji_EpicLink = [],
      ji_CreatedDate = zeroTime, ji_UpdatedDate = zeroTime, ji_Description = [],
      ji_FixVersions = [], ji_Watchers = [], ji_URL = [], ji_PlannedStartDate = None,
      ji_PlannedEndDate = None, ji_Theme = [], ji_Initiative = [], ji_Dependencies = [],
      ji_PriorityScore = 0, ji_RoadmapStatus = [], ji_Milestone = [], ji_Quarter = []\<rparr>"

definition zeroGitHubIssue :: GitHubIssue where
  "zeroGitHubIssue =
     \<lparr>gh_Title = [], gh_Number = 0, gh_State = [], gh_Labels = [], gh_Assignees = [],
      gh_CreatedDate = zeroTime, gh_UpdatedDate = zeroTime, gh_URL = [], gh_Repository = [],
      gh_PlannedStartDate = None, gh_PlannedEndDate = None, gh_Theme = [], gh_Initiative = [],
      gh_Dependencies = [], gh_PriorityScore = 0, gh_RoadmapStatus = [], gh_Milestone = [],
      gh_Quarter = []\<rparr>"

definition zeroMetadata :: Metadata where
  "zeroMetadata =
     \<lparr>md_FetchTime = zeroTime, md_JiraProjects = [], md_GitHubRepos = [], md_JiraJQL = [],
      md_GitHubLabels = [], md_GitHubContentFilter = [], md_GitHubCreator = [],
      md_VersionLabel = [], md_RoadmapTimeframe = [], md_RoadmapGrouping = [],
      md_RoadmapView = [], md_RoadmapThemes = [], md_RoadmapQuarters = []\<rparr>"

definition mkData :: "JiraIssue list \<Rightarrow> GitHubIssue list \<Rightarrow> AggregatedData" where
  "mkData js gs = \<lparr>JiraIssues = js, GitHubIssues = gs, GitHubPRs = [], Metadata = zeroMetadata\<rparr>"

definition day :: "int \<Rightarrow> int \<Rightarrow> int \<Rightarrow> Time" where
  "day y m d = \<lparr>Year = y, Month = m, Day = d, Nanos = 0\<rparr>"

definition axis2025 :: "string list" where
  "axis2025 = [''Q1 2025'', ''Q2 2025'', ''Q3 2025'', ''Q4 2025'']"

text \<open>A Jira issue planned to start in October 2025 and to end in February 2025.\<close>

definition invertedIssue :: JiraIssue where
  "invertedIssue = zeroJiraIssue\<lparr>ji_Key := ''PROJ-7'', ji_Status := ''In Progress'',
     ji_CreatedDate := day 2025 1 6, ji_UpdatedDate := day 2025 1 8,
     ji_PlannedStartDate := Some (day 2025 10 1), ji_PlannedEndDate := Some (day 2025 2 15)\<rparr>"

text \<open>A released issue as \<open>extractMilestones\<close> builds its item: no dates are set.\<close>

definition undatedItem :: RoadmapItem where
  "undatedItem = \<lparr>ri_Type = ''jira'', ri_JiraIssue = Some invertedIssue, ri_GitHubIssue = None,
     ri_Status = ''In Progress'', ri_StartDate = None, ri_EndDate = None\<rparr>"


subsection \<open>Go maps\<close>

text \<open>
  A Go map with string keys is an association list with distinct keys, kept in the order
  in which the keys were first stored. Reading the map never depends on that order. Go
  leaves the order of a \<open>range\<close> over a map unspecified, so every function that ranges
  over a map takes the order actually taken by the run as a parameter.
\<close>

type_synonym 'a gomap = "(string \<times> 'a) list"

fun mapPut :: "string \<Rightarrow> 'a \<Rightarrow> 'a gomap \<Rightarrow> 'a gomap" where
  "mapPut k v [] = [(k, v)]"
| "mapPut k v (p # ps) = (if fst p = k then (k, v) # ps else p # mapPut k v ps)"

text \<open>\<open>m[k] = append(m[k], x)\<close>: a missing key reads as the nil slice.\<close>

definition appendTo :: "string \<Rightarrow> 'a \<Rightarrow> 'a list gomap \<Rightarrow> 'a list gomap" where
  "appendTo k x m = mapPut k ((case map_of m k of None \<Rightarrow> [] | Some v \<Rightarrow> v) @ [x]) m"

subsection \<open>Grouping\<close>

text \<open>\<open>fmt.Sprintf("Q%d %d", quarterNum, year)\<close>\<close>

definition quarterLabel :: "int \<Rightarrow> int \<Rightarrow> string" where
  "quarterLabel quarterNum year = ''Q'' @ itoa quarterNum @ '' '' @ itoa year"

text \<open>
  The group of one item under each grouping, as the four loops of \<open>groupRoadmapItems\<close>
  compute it. Reading a field through a nil issue pointer panics.
\<close>

definition epicGroupKey :: "RoadmapItem \<Rightarrow> error + string" where
  "epicGroupKey item =
     (if ri_Type item = ''jira'' then
        (case ri_JiraIssue item of
           None \<Rightarrow> Inl NilPointerDereference
         | Some j \<Rightarrow> Inr (if ji_EpicLink j \<noteq> [] then ji_EpicLink j else ''No Epic''))
      else Inr ''No Epic'')"

definition themeGroupKey :: "RoadmapItem \<Rightarrow> error + string" where
  "themeGroupKey item =
     (if ri_Type item = ''jira'' then
        (case ri_JiraIssue item of
           None \<Rightarrow> Inl NilPointerDereference
         | Some j \<Rightarrow> Inr (if ji_Theme j \<noteq> [] then ji_Theme j
                         else if ji_IssueType j \<noteq> [] then ji_IssueType j
                         else ''No Theme''))
      else if ri_Type item = ''github-issue'' then
        (case ri_GitHubIssue item of
           None \<Rightarrow> Inl NilPointerDereference
         | Some g \<Rightarrow> Inr (if gh_Theme g \<noteq> [] then gh_Theme g
                         else (case gh_Labels g of [] \<Rightarrow> ''No Theme'' | l # _ \<Rightarrow> l)))
      else Inr ''No Theme'')"

definition teamGroupKey :: "RoadmapItem \<Rightarrow> error + string" where
  "teamGroupKey item =
     (if ri_Type item = ''jira'' then
        (case ri_JiraIssue item of
           None \<Rightarrow> Inl NilPointerDereference
         | Some j \<Rightarrow> Inr (if ji_Team j \<noteq> [] then ji_Team j else ''No Team''))
      else Inr ''No Team'')"

definition quarterGroupKey :: "RoadmapItem \<Rightarrow> error + string" where
  "quarterGroupKey item =
     (case ri_StartDate item of
        None \<Rightarrow> Inr ''No Quarter''
      | Some sd \<Rightarrow>
          (let year = Year sd;
               quarterNum = go_div (Month sd - 1) 3 + 1;
               derived = quarterLabel quarterNum year
           in if ri_Type item = ''jira'' then
                (case ri_JiraIssue item of
                   None \<Rightarrow> Inl NilPointerDereference
                 | Some j \<Rightarrow> Inr (if ji_Quarter j \<noteq> [] then ji_Quarter j else derived))
              else if ri_Type item = ''github-issue'' then
                (case ri_GitHubIssue item of
                   None \<Rightarrow> Inl NilPointerDereference
                 | Some g \<Rightarrow> Inr (if gh_Quarter g \<noteq> [] then gh_Quarter g else derived))
              else Inr ''No Quarter''))"

fun groupLoop :: "(RoadmapItem \<Rightarrow> error + string) \<Rightarrow> RoadmapItem list
    \<Rightarrow> RoadmapItem list gomap \<Rightarrow> error + RoadmapItem list gomap" where
  "groupLoop key [] result = Inr result"
| "groupLoop key (item # items) result =
     (case key item of
        Inl e \<Rightarrow> Inl e
      | Inr k \<Rightarrow> groupLoop key items (appendTo k item result))"

definition groupRoadmapItems :: "AggregatedData \<Rightarrow> string \<Rightarrow> error + RoadmapItem list gomap" where
  "groupRoadmapItems data grouping =
     (if grouping = ''epic'' then groupLoop epicGroupKey (allItems data) []
      else if grouping = ''theme'' then groupLoop themeGroupKey (allItems data) []
      else if grouping = ''team'' then groupLoop teamGroupKey (allItems data) []
      else if grouping = ''quarter'' then groupLoop quarterGroupKey (allItems data) []
      else Inr [(''All Items'', allItems data)])"

subsection \<open>Milestones\<close>

definition addToMilestone :: "string \<Rightarrow> Time \<Rightarrow> RoadmapItem \<Rightarrow> Milestone gomap \<Rightarrow> Milestone gomap" where
  "addToMilestone name target item milestoneMap =
     (let milestone = (case map_of milestoneMap name of
                         None \<Rightarrow> \<lparr>ms_Name = name, ms_TargetDate = target,
                                  ms_Status = ''Planned'', ms_Items = []\<rparr>
                       | Some m \<Rightarrow> m)
      in mapPut name
           (milestone\<lparr>ms_Items := ms_Items milestone @ [item],
                       ms_Status := aggregateStatus (ms_Status milestone) (ri_Status item)\<rparr>)
           milestoneMap)"

definition milestoneJiraStep :: "JiraIssue \<Rightarrow> Milestone gomap \<Rightarrow> Milestone gomap" where
  "milestoneJiraStep issue milestoneMap =
     (case ji_PlannedEndDate issue of
        None \<Rightarrow> milestoneMap
      | Some target \<Rightarrow>
          if ji_Milestone issue \<noteq> [] then
            addToMilestone (ji_Milestone issue) target
              \<lparr>ri_Type = ''jira'', ri_JiraIssue = Some issue, ri_GitHubIssue = None,
               ri_Status = (if ji_RoadmapStatus issue = [] then deriveRoadmapStatus (ji_Status issue)
                            else ji_RoadmapStatus issue),
               ri_StartDate = None, ri_EndDate = None\<rparr>
              milestoneMap
          else milestoneMap)"

definition milestoneGitHubStep :: "GitHubIssue \<Rightarrow> Milestone gomap \<Rightarrow> Milestone gomap" where
  "milestoneGitHubStep issue milestoneMap =
     (case gh_PlannedEndDate issue of
        None \<Rightarrow> milestoneMap
      | Some target \<Rightarrow>
          if gh_Milestone issue \<noteq> [] then
            addToMilestone (gh_Milestone issue) target
              \<lparr>ri_Type = ''github-issue'', ri_JiraIssue = None, ri_GitHubIssue = Some issue,
               ri_Status = (if gh_RoadmapStatus issue = []
                            then deriveRoadmapStatusFromGitHub (gh_State issue)
                            else gh_RoadmapStatus issue),
               ri_StartDate = None, ri_EndDate = None\<rparr>
              milestoneMap
          else milestoneMap)"

text \<open>The map after the two loops, and the slice read off it in the order \<open>order\<close>.\<close>

definition milestoneMapOf :: "AggregatedData \<Rightarrow> Milestone gomap" where
  "milestoneMapOf data =
     fold milestoneGitHubStep (GitHubIssues data) (fold milestoneJiraStep (JiraIssues data) [])"

definition extractMilestones :: "(Milestone gomap \<Rightarrow> Milestone gomap) \<Rightarrow> AggregatedData \<Rightarrow> Milestone list" where
  "extractMilestones order data = map snd (order (milestoneMapOf data))"


text \<open>The example of the specification: a host issue in state open without planned
  dates, created on 2025-01-10 and updated on 2025-01-20.\<close>

definition openHostIssue :: GitHubIssue where
  "openHostIssue = zeroGitHubIssue\<lparr>gh_Title := ''Flaky build'', gh_Number := 42,
     gh_State := ''open'', gh_CreatedDate := day 2025 1 10, gh_UpdatedDate := day 2025 1 20,
     gh_Repository := ''acme/app''\<rparr>"

text \<open>A finished ticket without planned dates, and the same ticket planned for a release.\<close>

definition doneIssue :: JiraIssue where
  "doneIssue = zeroJiraIssue\<lparr>ji_Key := ''PROJ-9'', ji_IssueType := ''Story'',
     ji_Status := ''Done'', ji_CreatedDate := day 2025 1 6, ji_UpdatedDate := day 2025 1 20\<rparr>"

definition releasedIssue :: JiraIssue where
  "releasedIssue = doneIssue\<lparr>ji_PlannedEndDate := Some (day 2025 3 31), ji_Milestone := ''v1.0''\<rparr>"

text \<open>The grouping example of the specification: a ticket linked to the epic PROJ-1
  and a host issue.\<close>

definition linkedIssue :: JiraIssue where
  "linkedIssue = zeroJiraIssue\<lparr>ji_Key := ''PROJ-2'', ji_IssueType := ''Story'',
     ji_Status := ''To Do'', ji_EpicLink := ''PROJ-1'', ji_CreatedDate := day 2025 2 3,
     ji_UpdatedDate := day 2025 2 4\<rparr>"


subsection \<open>The quarter axis\<close>

text \<open>
  The loop of \<open>generateQuarters\<close>: \<open>quarters\<close> is the slice built so far. The loop
  ends because every step moves \<open>current\<close> to a later month.
\<close>

definition monthIndex :: "Time \<Rightarrow> int" where
  "monthIndex t = 12 * Year t + Month t - 1"

lemma normDay_valid:
  "1 \<le> m \<Longrightarrow> m \<le> 12 \<Longrightarrow>
     1 \<le> fst (snd (normDay y m d)) \<and> fst (snd (normDay y m d)) \<le> 12
     \<and> 1 \<le> snd (snd (normDay y m d))
     \<and> snd (snd (normDay y m d)) \<le> daysIn (fst (normDay y m d)) (fst (snd (normDay y m d)))"
proof (induction y m d rule: normDay.induct)
  case (1 y m d)
  show ?case
  proof (cases "d < 1")
    case True
    have v: "1 \<le> snd (prevMonth (y, m))" "snd (prevMonth (y, m)) \<le> 12"
      using "1.prems" by (auto simp: prevMonth_def)
    from "1.IH"(1)[OF True refl v] True show ?thesis
      by (subst (1 2 3 4 5 6) normDay.simps) (simp add: Let_def)
  next
    case False
    show ?thesis
    proof (cases "d > daysIn y m")
      case True
      have v: "1 \<le> snd (nextMonth (y, m))" "snd (nextMonth (y, m)) \<le> 12"
        using "1.prems" by (auto simp: nextMonth_def)
      from "1.IH"(2)[OF False True refl v] False True show ?thesis
        by (subst (1 2 3 4 5 6) normDay.simps) (simp add: Let_def)
    next
      case nd: False
      with False "1.prems" show ?thesis
        by (subst (1 2 3 4 5 6) normDay.simps) simp
    qed
  qed
qed

lemma normDay_forward:
  "1 \<le> d \<Longrightarrow> 1 \<le> m \<Longrightarrow> m \<le> 12 \<Longrightarrow>
     12 * y + m \<le> 12 * fst (normDay y m d) + fst (snd (normDay y m d))"
proof (induction y m d rule: normDay.induct)
  case (1 y m d)
  have nl: "\<not> d < 1" using "1.prems" by simp
  show ?case
  proof (cases "d > daysIn y m")
    case True
    have v: "1 \<le> snd (nextMonth (y, m))" "snd (nextMonth (y, m)) \<le> 12"
      using "1.prems" by (auto simp: nextMonth_def)
    have d: "1 \<le> d - daysIn y m" using True by simp
    have s: "12 * y + m \<le> 12 * fst (nextMonth (y, m)) + snd (nextMonth (y, m))"
      using "1.prems" by (auto simp: nextMonth_def)
    from "1.IH"(2)[OF nl True refl d v] s nl True show ?thesis
      by (subst (1 2) normDay.simps) (simp add: Let_def)
  next
    case False
    with nl show ?thesis
      by (subst (1 2) normDay.simps) simp
  qed
qed

lemma validTime_Date: "validTime (Date y m d ns)"
proof -
  have "1 \<le> (m - 1) mod 12 + 1" "(m - 1) mod 12 + 1 \<le> 12"
    by simp_all
  from normDay_valid[OF this] show ?thesis
    by (simp add: validTime_def Date_def Let_def)
qed

lemma monthIndex_AddDate_month:
  assumes "validTime t"
  shows "monthIndex t + 1 \<le> monthIndex (AddDate t 0 1 0)"
proof -
  let ?y = "Year t + (Month t + 1 - 1) div 12" and ?m = "(Month t + 1 - 1) mod 12 + 1"
  have m: "1 \<le> ?m" "?m \<le> 12" by simp_all
  have d: "1 \<le> Day t" using assms by (simp add: validTime_def)
  have "12 * ?y + ?m = 12 * Year t + Month t + 1"
    by presburger
  with normDay_forward[OF d m, of ?y] show ?thesis
    by (simp add: monthIndex_def AddDate_def Date_def Let_def)
qed

lemma Before_monthIndex:
  assumes "Before c e" "validTime c"
  shows "monthIndex c \<le> 12 * Year e + 11 \<or> monthIndex c \<le> monthIndex e"
  using assms by (auto simp: Before_def validTime_def monthIndex_def)

lemma month_step_decreases:
  assumes "Before current endTime"
  shows "((AddDate current 0 1 0, endTime), (current, endTime))
           \<in> measures [\<lambda>(c, e). if validTime c then 0 else 1,
                        \<lambda>(c, e). nat (12 * Year e + 12 - monthIndex c)]"
proof -
  have v: "validTime (AddDate current 0 1 0)"
    by (simp add: AddDate_def validTime_Date)
  show ?thesis
  proof (cases "validTime current")
    case True
    from Before_monthIndex[OF assms True] True
    have "monthIndex current \<le> 12 * Year endTime + 11"
      using assms by (auto simp: Before_def validTime_def monthIndex_def)
    with monthIndex_AddDate_month[OF True] v True show ?thesis by simp
  next
    case False
    with v show ?thesis by simp
  qed
qed

text \<open>\<open>fmt.Sprintf("Q%d %d", (int(current.Month())-1)/3+1, current.Year())\<close>\<close>

definition timeQuarterLabel :: "Time \<Rightarrow> string" where
  "timeQuarterLabel t = quarterLabel (go_div (Month t - 1) 3 + 1) (Year t)"

function generateQuartersLoop :: "Time \<Rightarrow> Time \<Rightarrow> string list \<Rightarrow> string list" where
  "generateQuartersLoop current endTime quarters =
     (if Before current endTime then
        (let quarter = timeQuarterLabel current;
             found = (quarter \<in> set quarters);
             quarters' = (if \<not> found then quarters @ [quarter] else quarters)
         in generateQuartersLoop (AddDate current 0 1 0) endTime quarters')
      else quarters)"
  by pat_completeness auto
termination
proof (relation "inv_image (measures [\<lambda>(c, e). if validTime c then 0 else 1,
                        \<lambda>(c, e). nat (12 * Year e + 12 - monthIndex c)]) (\<lambda>(c, e, q). (c, e))",
    goal_cases)
  case 1
  then show ?case by simp
next
  case (2 current endTime quarters quarter found quarters')
  from month_step_decreases[OF 2(1)] show ?case by simp
qed

declare generateQuartersLoop.simps [simp del]

text \<open>
  The axis in the words of its description: the dates visited month by month from the
  start while they are before the end, and of their labels the first occurrence of each,
  in the order in which they are seen.
\<close>

function monthSteps :: "Time \<Rightarrow> Time \<Rightarrow> Time list" where
  "monthSteps current endTime =
     (if Before current endTime then current # monthSteps (AddDate current 0 1 0) endTime
      else [])"
  by pat_completeness auto
termination
proof (relation "measures [\<lambda>(c, e). if validTime c then 0 else 1,
                        \<lambda>(c, e). nat (12 * Year e + 12 - monthIndex c)]", goal_cases)
  case 1
  then show ?case by simp
next
  case (2 current endTime)
  then show ?case by (rule month_step_decreases)
qed

declare monthSteps.simps [simp del]

fun firstSeen :: "string list \<Rightarrow> string list" where
  "firstSeen [] = []"
| "firstSeen (l # ls) = l # filter (\<lambda>x. x \<noteq> l) (firstSeen ls)"

definition generateQuarters :: "Time \<Rightarrow> Time \<Rightarrow> string list" where
  "generateQuarters start endTime = generateQuartersLoop start endTime []"


subsection \<open>Strings and scanning\<close>

text \<open>The functions of package \<open>strings\<close> that \<open>parseTimeframe\<close> and the views call.\<close>

definition HasPrefix :: "string \<Rightarrow> string \<Rightarrow> bool" where
  "HasPrefix s pre = (take (length pre) s = pre)"

definition HasSuffix :: "string \<Rightarrow> string \<Rightarrow> bool" where
  "HasSuffix s suf = (length suf \<le> length s \<and> drop (length s - length suf) s = suf)"

fun Contains :: "string \<Rightarrow> string \<Rightarrow> bool" where
  "Contains [] substr = (substr = [])"
| "Contains (c # cs) substr = (HasPrefix (c # cs) substr \<or> Contains cs substr)"

definition TrimPrefix :: "string \<Rightarrow> string \<Rightarrow> string" where
  "TrimPrefix s pre = (if HasPrefix s pre then drop (length pre) s else s)"

text \<open>\<open>strings.Split(s, sep)\<close> for a separator of one byte.\<close>

fun splitAcc :: "char \<Rightarrow> string \<Rightarrow> string \<Rightarrow> string list" where
  "splitAcc sep cur [] = [rev cur]"
| "splitAcc sep cur (c # cs) =
     (if c = sep then rev cur # splitAcc sep [] cs else splitAcc sep (c # cur) cs)"

definition Split :: "string \<Rightarrow> char \<Rightarrow> string list" where
  "Split s sep = splitAcc sep [] s"

text \<open>
  White space as \<open>unicode.IsSpace\<close> has it, each rune in its UTF-8 encoding.
  \<open>TrimSpace\<close> removes such runes from both ends of a string.
\<close>

definition spaceRunes :: "string list" where
  "spaceRunes = map runeString
     [9, 10, 11, 12, 13, 32, 133, 160, 5760, 8192, 8193, 8194, 8195, 8196, 8197, 8198,
      8199, 8200, 8201, 8202, 8232, 8233, 8239, 8287, 12288]"

definition leadingSpace :: "string \<Rightarrow> nat" where
  "leadingSpace s = (case find (\<lambda>sp. sp \<noteq> [] \<and> HasPrefix s sp) spaceRunes of
                       None \<Rightarrow> 0 | Some sp \<Rightarrow> length sp)"

definition trailingSpace :: "string \<Rightarrow> nat" where
  "trailingSpace s = (case find (\<lambda>sp. sp \<noteq> [] \<and> HasSuffix s sp) spaceRunes of
                        None \<Rightarrow> 0 | Some sp \<Rightarrow> length sp)"

lemma leadingSpace_le: "leadingSpace s \<le> length s"
proof (cases "find (\<lambda>sp. sp \<noteq> [] \<and> HasPrefix s sp) spaceRunes")
  case None
  then show ?thesis by (simp add: leadingSpace_def)
next
  case (Some sp)
  then have "HasPrefix s sp" by (auto simp: find_Some_iff)
  then have "length sp \<le> length s"
    by (metis HasPrefix_def length_take min.cobounded1)
  with Some show ?thesis by (simp add: leadingSpace_def)
qed

lemma trailingSpace_le: "trailingSpace s \<le> length s"
proof (cases "find (\<lambda>sp. sp \<noteq> [] \<and> HasSuffix s sp) spaceRunes")
  case None
  then show ?thesis by (simp add: trailingSpace_def)
next
  case (Some sp)
  then have "HasSuffix s sp" by (auto simp: find_Some_iff)
  with Some show ?thesis by (simp add: trailingSpace_def HasSuffix_def)
qed

function TrimLeft :: "string \<Rightarrow> string" where
  "TrimLeft s = (if leadingSpace s = 0 then s else TrimLeft (drop (leadingSpace s) s))"
  by pat_completeness auto
termination
proof (relation "measure length", goal_cases)
  case 1
  then show ?case by simp
next
  case (2 s)
  with leadingSpace_le[of s] show ?case by (cases s) auto
qed

function TrimRight :: "string \<Rightarrow> string" where
  "TrimRight s = (if trailingSpace s = 0 then s
                  else TrimRight (take (length s - trailingSpace s) s))"
  by pat_completeness auto
termination
proof (relation "measure length", goal_cases)
  case 1
  then show ?case by simp
next
  case (2 s)
  with trailingSpace_le[of s] show ?case by (cases s) auto
qed

declare TrimLeft.simps [simp del] TrimRight.simps [simp del]

definition TrimSpace :: "string \<Rightarrow> string" where
  "TrimSpace s = TrimRight (TrimLeft s)"

text \<open>
  The verb \<open>%d\<close> of \<open>fmt.Sscanf\<close>: white space is skipped (a newline is an error), a
  sign is accepted, at least one decimal digit is needed, and the number has to fit in
  64 bits. The result is the number and the rest of the input, or \<open>None\<close> when the scan
  fails, in which case \<open>Sscanf\<close> leaves the variable as it was.
\<close>

function skipScanSpace :: "string \<Rightarrow> string option" where
  "skipScanSpace s =
     (if HasPrefix s [char_of (10::nat)] \<and> s \<noteq> [] then None
      else if leadingSpace s = 0 then Some s
      else skipScanSpace (drop (leadingSpace s) s))"
  by pat_completeness auto
termination
proof (relation "measure length", goal_cases)
  case 1
  then show ?case by simp
next
  case (2 s)
  with leadingSpace_le[of s] show ?case by (cases s) auto
qed

declare skipScanSpace.simps [simp del]

definition isDigit :: "char \<Rightarrow> bool" where
  "isDigit c = ((48::nat) \<le> of_char c \<and> of_char c \<le> (57::nat))"

definition digitsValue :: "string \<Rightarrow> int" where
  "digitsValue ds = foldl (\<lambda>acc c. 10 * acc + (int (of_char c) - 48)) 0 ds"

definition scanInt :: "string \<Rightarrow> (int \<times> string) option" where
  "scanInt s =
     (case skipScanSpace s of
        None \<Rightarrow> None
      | Some s1 \<Rightarrow>
          (let neg = HasPrefix s1 ''-'' \<and> s1 \<noteq> [];
               s2 = (if s1 \<noteq> [] \<and> (hd s1 = CHR ''+'' \<or> hd s1 = CHR ''-'') then tl s1 else s1);
               ds = takeWhile isDigit s2;
               v = (if neg then - digitsValue ds else digitsValue ds)
           in if ds = [] \<or> v < - 9223372036854775808 \<or> v > 9223372036854775807 then None
              else Some (v, dropWhile isDigit s2)))"

text \<open>\<open>fmt.Sscanf(s, "%d...", &n)\<close> with \<open>n\<close> zero before the call: the text of the
  format after the verb is matched only after \<open>n\<close> is stored.\<close>

definition sscanInt :: "string \<Rightarrow> int" where
  "sscanInt s = (case scanInt s of None \<Rightarrow> 0 | Some r \<Rightarrow> fst r)"

text \<open>\<open>fmt.Sscanf(s, "Q%d", &n)\<close> with \<open>n\<close> zero before the call.\<close>

definition sscanQ :: "string \<Rightarrow> int" where
  "sscanQ s = (case s of [] \<Rightarrow> 0 | c # r \<Rightarrow> if c = CHR ''Q'' then sscanInt r else 0)"

subsection \<open>Timeframes\<close>

text \<open>
  \<open>parseTimeframe\<close> reads the clock once; \<open>now\<close> is the time it reads. Each of its
  three forms returns from the function when it applies, which is \<open>Some\<close> here.
\<close>

definition parseMonths :: "Time \<Rightarrow> string \<Rightarrow> (Time \<times> Time) option" where
  "parseMonths now timeframe =
     (if HasSuffix timeframe ''months'' then
        (let months = sscanInt timeframe
         in if months > 0 then
              (let startDate = Date (Year now) (Month now) 1 0
               in Some (startDate, AddDate startDate 0 months 0))
            else None)
      else None)"

definition parseYears :: "Time \<Rightarrow> string \<Rightarrow> (Time \<times> Time) option" where
  "parseYears now timeframe =
     (if HasSuffix timeframe ''year'' \<or> HasSuffix timeframe ''years'' then
        (let years0 = sscanInt timeframe;
             years = (if years0 = 0 then sscanInt timeframe else years0)
         in if years > 0 then
              (let startDate = Date (Year now) (Month now) 1 0
               in Some (startDate, AddDate startDate years 0 0))
            else None)
      else None)"

definition parseQuarterRange :: "string \<Rightarrow> (Time \<times> Time) option" where
  "parseQuarterRange timeframe =
     (if Contains timeframe ''-'' \<and> Contains timeframe ''Q'' then
        (case Split timeframe CHR ''-'' of
           [part0, part1] \<Rightarrow>
             (let yearStr1 = TrimSpace (TrimPrefix part1 ''Q1'');
                  yearStr2 = TrimSpace (TrimPrefix yearStr1 ''Q2'');
                  yearStr3 = TrimSpace (TrimPrefix yearStr2 ''Q3'');
                  yearStr = TrimSpace (TrimPrefix yearStr3 ''Q4'');
                  year = sscanInt yearStr;
                  startQ = sscanQ (TrimSpace part0);
                  endQ = sscanQ (TrimSpace part1)
              in if startQ \<ge> 1 \<and> startQ \<le> 4 \<and> endQ \<ge> 1 \<and> endQ \<le> 4 \<and> year > 0 then
                   (let startMonth = (startQ - 1) * 3 + 1;
                        endMonth = endQ * 3;
                        startDate = Date year startMonth 1 0;
                        endDate = Date year endMonth 1 0
                    in Some (startDate, AddDate endDate 0 1 0))
                 else None)
         | _ \<Rightarrow> None)
      else None)"

definition parseTimeframe :: "Time \<Rightarrow> string \<Rightarrow> Time \<times> Time" where
  "parseTimeframe now timeframe =
     (if timeframe = [] then (zeroTime, zeroTime)
      else case parseMonths now timeframe of
        Some r \<Rightarrow> r
      | None \<Rightarrow>
          (case parseYears now timeframe of
             Some r \<Rightarrow> r
           | None \<Rightarrow>
               (case parseQuarterRange timeframe of
                  Some r \<Rightarrow> r
                | None \<Rightarrow> (zeroTime, zeroTime))))"


subsection \<open>Rendered output\<close>

text \<open>
  A renderer appends to a \<open>strings.Builder\<close> and never reads it, so it is modelled by
  the list of the pieces it writes, in order: \<open>Text s\<close> is one \<open>WriteString(s)\<close>, and
  the string that \<open>Generate\<close> returns is the concatenation of the pieces. The renderers
  that this development does not unfold (the header and the footer, the table, kanban,
  custom and Gantt formats, and the timeline, strategic and release views) write text
  only and return nothing; each is kept as one piece that names the renderer and the
  arguments its body reads.
\<close>

datatype fragment =
    Text string
  | HeaderMarkup AggregatedData string
  | FooterMarkup AggregatedData
  | TableMarkup AggregatedData
  | KanbanMarkup AggregatedData
  | CustomMarkup AggregatedData
  | GanttMarkup AggregatedData
  | TimelineMarkup AggregatedData "string list" string string bool
  | StrategicMarkup AggregatedData "string list" bool
  | ReleaseMarkup AggregatedData "string list" string bool

record Options =
  opt_Format :: string
  opt_GroupBy :: string
  opt_IncludeMetadata :: bool
  opt_VersionLabel :: string
  opt_RoadmapTimeframe :: string
  opt_RoadmapGrouping :: string
  opt_RoadmapView :: string
  opt_IncludeDependencies :: bool

text \<open>\<open>html.EscapeString\<close>\<close>

definition escapeChar :: "char \<Rightarrow> string" where
  \<open>escapeChar c =
     (if c = CHR ''&'' then ''&amp;''
      else if c = CHR 0x27 then ''&#39;''
      else if c = CHR ''<'' then ''&lt;''
      else if c = CHR ''>'' then ''&gt;''
      else if c = CHR 0x22 then ''&#34;''
      else [c])\<close>

definition escapeHTML :: "string \<Rightarrow> string" where
  "escapeHTML content = concat (map escapeChar content)"

text \<open>\<open>strings.Join\<close>\<close>

fun Join :: "string list \<Rightarrow> string \<Rightarrow> string" where
  "Join [] sep = []"
| "Join [x] sep = x"
| "Join (x # y # ys) sep = x @ sep @ Join (y # ys) sep"

text \<open>Reading a Go map: a missing key gives the zero value of the element type.\<close>

definition mapGet :: "'a \<Rightarrow> 'a gomap \<Rightarrow> string \<Rightarrow> 'a" where
  "mapGet zero m k = (case map_of m k of None \<Rightarrow> zero | Some v \<Rightarrow> v)"

definition generateQuartersFromNow :: "Time \<Rightarrow> nat \<Rightarrow> string list" where
  "generateQuartersFromNow now cnt =
     (let currentYear = Year now;
          currentQuarter = go_div (Month now - 1) 3 + 1
      in map (\<lambda>i. let quarterNum = go_mod (currentQuarter + int i - 1) 4 + 1;
                       yearOffset = go_div (currentQuarter + int i - 1) 4;
                       year = currentYear + yearOffset
                   in quarterLabel quarterNum year)
             [0..<cnt])"

subsection \<open>The epic Gantt view\<close>

definition statusTextColor :: "string \<Rightarrow> string" where
  "statusTextColor status =
     (if status = ''Blocked'' \<or> status = ''At Risk'' then ''#FFFFFF'' else ''#000000'')"

text \<open>The cell that describes an item. The issue is read through the item's pointer.\<close>

definition itemDetails :: "RoadmapItem \<Rightarrow> error + fragment list" where
  \<open>itemDetails item =
     (if ri_Type item = ''jira'' then
        (case ri_JiraIssue item of
           None \<Rightarrow> Inl NilPointerDereference
         | Some jiraIssue \<Rightarrow> Inr
             [Text (''<strong><a href="'' @ ji_URL jiraIssue @ ''" style="text-decoration: none;">'' @ ji_Key jiraIssue @ ''</a></strong>: '' @ escapeHTML (ji_Summary jiraIssue) @ ''<br/>\<newline>''),
              Text (''<div style="margin-top: 5px;">\<newline>''),
              Text (''<span style="display: inline-block; padding: 3px 8px; border-radius: 3px; background-color:'' @ getRoadmapStatusColor (ri_Status item) @ ''; color:'' @ statusTextColor (ri_Status item) @ ''; font-size: 12px; margin-right: 5px;">'' @ ri_Status item @ ''</span>\<newline>''),
              Text (''<small>Assignee: '' @ escapeHTML (ji_Assignee jiraIssue) @ ''</small>\<newline>''),
              Text (''</div>\<newline>'')])
      else if ri_Type item = ''github-issue'' then
        (case ri_GitHubIssue item of
           None \<Rightarrow> Inl NilPointerDereference
         | Some githubIssue \<Rightarrow> Inr
             [Text (''<strong><a href="'' @ gh_URL githubIssue @ ''" style="text-decoration: none;">'' @ escapeHTML (gh_Repository githubIssue) @ '' #'' @ itoa (gh_Number githubIssue) @ ''</a></strong>: '' @ escapeHTML (gh_Title githubIssue) @ ''<br/>\<newline>''),
              Text (''<div style="margin-top: 5px;">\<newline>''),
              Text (''<span style="display: inline-block; padding: 3px 8px; border-radius: 3px; background-color:'' @ getRoadmapStatusColor (ri_Status item) @ ''; color:'' @ statusTextColor (ri_Status item) @ ''; font-size: 12px; margin-right: 5px;">'' @ ri_Status item @ ''</span>\<newline>''),
              Text (''<small>Assignees: '' @ Join (gh_Assignees githubIssue) '', '' @ ''</small>\<newline>''),
              Text (''</div>\<newline>'')])
      else Inr [])\<close>

text \<open>
  One cell of an item's row: \<open>i\<close> is the index of the quarter, \<open>se\<close> the pair that
  \<open>getItemQuarters\<close> returned. The four marks are the runes U+25CF, U+25B6, U+25C0 and
  U+2501.
\<close>

definition timelineCell :: "RoadmapItem \<Rightarrow> int \<times> int \<Rightarrow> int \<Rightarrow> fragment" where
  \<open>timelineCell item se i =
     (let startQuarter = fst se; endQuarter = snd se
      in if i \<ge> startQuarter \<and> i \<le> endQuarter then
           (let color = getRoadmapStatusColor (ri_Status item);
                textColor = statusTextColor (ri_Status item);
                cellContent =
                  (if i = startQuarter \<and> i = endQuarter then ''<span style="font-weight: bold;">'' @ runeString 9679 @ ''</span>''
                   else if i = startQuarter then ''<span style="font-weight: bold;">'' @ runeString 9654 @ ''</span>''
                   else if i = endQuarter then ''<span style="font-weight: bold;">'' @ runeString 9664 @ ''</span>''
                   else ''<span style="font-weight: bold;">'' @ runeString 9473 @ ''</span>'');
                borderStyle =
                  (if i = startQuarter \<and> i = endQuarter then ''border: 1px solid #ddd; border-radius: 4px;''
                   else if i = startQuarter then ''border: 1px solid #ddd; border-left: 3px solid '' @ color @ ''; border-top: 1px solid '' @ color @ ''; border-bottom: 1px solid '' @ color @ '';''
                   else if i = endQuarter then ''border: 1px solid #ddd; border-right: 3px solid '' @ color @ ''; border-top: 1px solid '' @ color @ ''; border-bottom: 1px solid '' @ color @ '';''
                   else ''border: 1px solid #ddd; border-top: 1px solid '' @ color @ ''; border-bottom: 1px solid '' @ color @ '';'')
            in Text (''<td class="confluenceTd" style="text-align: center; padding: 10px; background-color:'' @ color @ ''; color:'' @ textColor @ ''; '' @ borderStyle @ ''">'' @ cellContent @ ''</td>\<newline>''))
         else Text (''<td class="confluenceTd" style="border: 1px solid #ddd; padding: 10px;"></td>\<newline>''))\<close>

definition itemRow :: "string list \<Rightarrow> RoadmapItem \<Rightarrow> error + fragment list" where
  \<open>itemRow quarters item =
     (case itemDetails item of
        Inl e \<Rightarrow> Inl e
      | Inr details \<Rightarrow> Inr
          ([Text (''<tr>\<newline>''),
            Text (''<td class="confluenceTd" style="vertical-align:top; padding: 10px; border: 1px solid #ddd;">\<newline>'')]
           @ details
           @ [Text (''</td>\<newline>'')]
           @ map (\<lambda>i. timelineCell item (getItemQuarters item quarters) (int i)) [0..<length quarters]
           @ [Text (''</tr>\<newline>'')]))\<close>

text \<open>The header row of one epic: its name, then an empty cell for every quarter.\<close>

definition epicHeaderCell :: "string \<Rightarrow> fragment" where
  \<open>epicHeaderCell name = Text (''<td class="confluenceTd" style="padding: 10px; background-color:#e9f0f7; font-weight:bold; border: 1px solid #ddd; border-bottom: 2px solid #4a6785;">'' @ escapeHTML name @ ''</td>\<newline>'')\<close>

definition epicHeaderRow :: "string \<Rightarrow> string list \<Rightarrow> fragment list" where
  \<open>epicHeaderRow name quarters =
     [Text (''<tr>\<newline>''), epicHeaderCell name]
     @ map (\<lambda>q. Text (''<td class="confluenceTd" style="padding: 10px; border: 1px solid #ddd; background-color:#e9f0f7;"></td>\<newline>'')) quarters
     @ [Text (''</tr>\<newline>'')]\<close>

fun collectE :: "('a \<Rightarrow> error + 'b list) \<Rightarrow> 'a list \<Rightarrow> error + 'b list" where
  "collectE f [] = Inr []"
| "collectE f (x # xs) =
     (case f x of
        Inl e \<Rightarrow> Inl e
      | Inr r \<Rightarrow> (case collectE f xs of Inl e \<Rightarrow> Inl e | Inr rs \<Rightarrow> Inr (r @ rs)))"

text \<open>The first pass: the keys of the epics in order of first appearance, and the map
  from each key to the summary of the first epic with that key.\<close>

definition collectEpicStep :: "JiraIssue \<Rightarrow> string list \<times> string gomap \<Rightarrow> string list \<times> string gomap" where
  "collectEpicStep issue st =
     (if ji_IssueType issue = ''Epic'' then
        (let epicKey = ji_Key issue; epicName = ji_Summary issue
         in if map_of (snd st) epicKey = None
            then (fst st @ [epicKey], mapPut epicKey epicName (snd st))
            else st)
      else st)"

definition collectEpics :: "JiraIssue list \<Rightarrow> string list \<times> string gomap" where
  "collectEpics issues =
     (let st = fold collectEpicStep issues ([], [])
      in (fst st @ [''No Epic''], mapPut ''No Epic'' ''Issues without Epic'' (snd st)))"

text \<open>The second pass: every Jira issue that is not an epic goes to the group of its
  epic link.\<close>

definition groupJiraStep :: "JiraIssue \<Rightarrow> RoadmapItem list gomap \<Rightarrow> RoadmapItem list gomap" where
  "groupJiraStep issue epicMap =
     (if ji_IssueType issue = ''Epic'' then epicMap
      else (let item = jiraRoadmapItem issue;
                epicKey = (if ji_EpicLink issue \<noteq> [] then ji_EpicLink issue else ''No Epic'')
            in appendTo epicKey item epicMap))"

text \<open>
  The third pass: a GitHub issue goes to the first epic key, in the order in which the
  range over \<open>epicKeyToName\<close> yields the keys, that is not \<open>No Epic\<close> and occurs in the
  title. \<open>keyOrder n\<close> is the order taken for the issue at index \<open>n\<close>.
\<close>

definition githubEpicKey :: "string list \<Rightarrow> GitHubIssue \<Rightarrow> string" where
  "githubEpicKey keys issue =
     (case find (\<lambda>key. key \<noteq> ''No Epic'' \<and> Contains (gh_Title issue) key) keys of
        None \<Rightarrow> ''No Epic'' | Some key \<Rightarrow> key)"

fun groupGitHubLoop :: "(nat \<Rightarrow> string list \<Rightarrow> string list) \<Rightarrow> string gomap \<Rightarrow> nat
    \<Rightarrow> GitHubIssue list \<Rightarrow> RoadmapItem list gomap \<Rightarrow> RoadmapItem list gomap" where
  "groupGitHubLoop keyOrder epicKeyToName n [] epicMap = epicMap"
| "groupGitHubLoop keyOrder epicKeyToName n (issue # issues) epicMap =
     (let item = githubRoadmapItem issue;
          epicKey = githubEpicKey (keyOrder n (map fst epicKeyToName)) issue
      in groupGitHubLoop keyOrder epicKeyToName (n + 1) issues (appendTo epicKey item epicMap))"

definition epicRows :: "string gomap \<Rightarrow> RoadmapItem list gomap \<Rightarrow> string list \<Rightarrow> string
    \<Rightarrow> error + fragment list" where
  "epicRows epicKeyToName epicMap quarters epicKey =
     (if length (mapGet [] epicMap epicKey) = 0 \<and> epicKey \<noteq> ''No Epic'' then Inr []
      else (case collectE (itemRow quarters) (mapGet [] epicMap epicKey) of
              Inl e \<Rightarrow> Inl e
            | Inr rows \<Rightarrow> Inr (epicHeaderRow (mapGet [] epicKeyToName epicKey) quarters @ rows)))"

subsection \<open>The dependency diagram\<close>

definition addDependenciesVisualization :: "AggregatedData \<Rightarrow> fragment list" where
  \<open>addDependenciesVisualization data =
     [Text (''<h3>Dependencies</h3>\<newline>''),
      Text (''<p>This diagram shows dependencies between work items.</p>\<newline>''),
      Text (''<ac:structured-macro ac:name="plantuml">\<newline>''),
      Text (''<ac:parameter ac:name="atlassian-macro-output-type">BLOCK</ac:parameter>\<newline>''),
      Text (''<ac:plain-text-body><![CDATA[\<newline>''),
      Text (''@startuml\<newline>''),
      Text (''skinparam monochrome true\<newline>''),
      Text (''skinparam shadowing false\<newline>''),
      Text (''skinparam defaultFontName Arial\<newline>''),
      Text (''skinparam defaultFontSize 12\<newline>'')]
     @ concat (map (\<lambda>issue. if length (ji_Dependencies issue) > 0
                      then [Text (''rectangle "'' @ ji_Key issue @ [CHR 0x5C] @ ''n'' @ escapeHTML (ji_Summary issue) @ ''" as '' @ ji_Key issue @ ''\<newline>'')]
                      else []) (JiraIssues data))
     @ concat (map (\<lambda>(i, issue). if length (gh_Dependencies issue) > 0
                      then (let nodeID = ''GH_ISSUE_'' @ itoa (int i)
                            in [Text (''rectangle "'' @ escapeHTML (gh_Repository issue) @ '' #'' @ itoa (gh_Number issue) @ [CHR 0x5C] @ ''n'' @ escapeHTML (gh_Title issue) @ ''" as '' @ nodeID @ ''\<newline>'')])
                      else []) (enumerate 0 (GitHubIssues data)))
     @ concat (map (\<lambda>issue. map (\<lambda>dep. Text (ji_Key issue @ '' --> '' @ dep @ ''\<newline>'')) (ji_Dependencies issue)) (JiraIssues data))
     @ [Text (''@enduml\<newline>''),
      Text ('']]></ac:plain-text-body>\<newline>''),
      Text (''</ac:structured-macro>\<newline>'')]\<close>

subsection \<open>\<open>generateEpicGanttView\<close>\<close>

definition ganttLegend :: "fragment list" where
  \<open>ganttLegend =
     [Text (''<div style="margin-top: 20px; margin-bottom: 20px;">\<newline>''),
      Text (''<h4>Legend</h4>\<newline>''),
      Text (''<table style="width: auto; border-collapse: collapse; margin-bottom: 15px;">\<newline>''),
      Text (''<tr>\<newline>'')]
     @ concat (map (\<lambda>status.
          [Text (''<td style="padding: 5px 10px; margin-right: 10px; background-color:'' @ getRoadmapStatusColor status @ ''; color:'' @ statusTextColor status @ ''; border-radius: 3px; font-size: 12px;">'' @ status @ ''</td>\<newline>''),
           Text (''<td style="padding-right: 15px;"></td>\<newline>'')])
        [''Planned'', ''In Progress'', ''At Risk'', ''Blocked'', ''Completed''])
     @ [Text (''</tr>\<newline>''),
      Text (''</table>\<newline>''),
      Text (''<table style="width: auto; border-collapse: collapse; margin-bottom: 15px;">\<newline>''),
      Text (''<tr>\<newline>''),
      Text (''<td style="padding: 5px 10px; font-weight: bold;">'' @ runeString 9679 @ ''</td>\<newline>''),
      Text (''<td style="padding-right: 15px;">Single quarter item</td>\<newline>''),
      Text (''<td style="padding: 5px 10px; font-weight: bold;">'' @ runeString 9654 @ ''</td>\<newline>''),
      Text (''<td style="padding-right: 15px;">Start of multi-quarter item</td>\<newline>''),
      Text (''<td style="padding: 5px 10px; font-weight: bold;">'' @ runeString 9473 @ ''</td>\<newline>''),
      Text (''<td style="padding-right: 15px;">Middle of timeline</td>\<newline>''),
      Text (''<td style="padding: 5px 10px; font-weight: bold;">'' @ runeString 9664 @ ''</td>\<newline>''),
      Text (''<td style="padding-right: 15px;">End of multi-quarter item</td>\<newline>''),
      Text (''</tr>\<newline>''),
      Text (''</table>\<newline>''),
      Text (''</div>\<newline>'')]\<close>

definition ganttTableHead :: "string list \<Rightarrow> fragment list" where
  \<open>ganttTableHead quarters =
     [Text (''<table class="confluenceTable" style="width: 100%; border-collapse: collapse; margin-top: 20px;">\<newline>''),
      Text (''<thead>\<newline>''),
      Text (''<tr>\<newline>''),
      Text (''<th class="confluenceTh" style="padding: 10px; text-align: left; border: 1px solid #ddd; background-color: #f2f2f2; width: 25%;">Epic</th>\<newline>'')]
     @ map (\<lambda>quarter. Text (''<th class="confluenceTh" style="padding: 10px; text-align: center; border: 1px solid #ddd; background-color: #f2f2f2;">'' @ quarter @ ''</th>\<newline>'')) quarters
     @ [Text (''</tr>\<newline>''),
      Text (''</thead>\<newline>''),
      Text (''<tbody>\<newline>'')]\<close>

definition ganttIntro :: "fragment list" where
  \<open>ganttIntro =
     [Text (''<h3>Epic Roadmap</h3>\<newline>''),
      Text (''<p>This view shows work items organized by epics across time periods.</p>\<newline>'')]\<close>

definition ganttTableEnd :: "fragment list" where
  \<open>ganttTableEnd =
     [Text (''</tbody>\<newline>''),
      Text (''</table>\<newline>'')]\<close>

definition generateEpicGanttView :: "Time \<Rightarrow> (nat \<Rightarrow> string list \<Rightarrow> string list)
    \<Rightarrow> AggregatedData \<Rightarrow> string list \<Rightarrow> Options \<Rightarrow> error + fragment list" where
  \<open>generateEpicGanttView now keyOrder data quarters0 opts =
     (let quarters = (if length quarters0 = 0 then generateQuartersFromNow now 4 else quarters0);
          epics = collectEpics (JiraIssues data);
          allEpics = fst epics;
          epicKeyToName = snd epics;
          epicMap = groupGitHubLoop keyOrder epicKeyToName 0 (GitHubIssues data)
                      (fold groupJiraStep (JiraIssues data) [])
      in case collectE (epicRows epicKeyToName epicMap quarters) allEpics of
           Inl e \<Rightarrow> Inl e
         | Inr rows \<Rightarrow> Inr
             (ganttIntro
              @ ganttTableHead quarters
              @ rows
              @ ganttTableEnd
              @ ganttLegend
              @ (if opt_IncludeDependencies opts then addDependenciesVisualization data else [])))\<close>

text \<open>
  The view in the words of its description. The groups are the keys of the epics in
  order of first appearance, then \<open>No Epic\<close>. The name of a group is the summary of the
  first epic with that key, and \<open>Issues without Epic\<close> for \<open>No Epic\<close>. The items of a
  group are the Jira issues that are not epics and whose epic link (or \<open>No Epic\<close>, when
  the link is empty) is the key, followed by the GitHub issues matched to the key, each in
  input order.
\<close>

definition epicKeysInOrder :: "JiraIssue list \<Rightarrow> string list" where
  "epicKeysInOrder issues =
     firstSeen (map ji_Key (filter (\<lambda>i. ji_IssueType i = ''Epic'') issues)) @ [''No Epic'']"

definition epicName :: "JiraIssue list \<Rightarrow> string \<Rightarrow> string" where
  "epicName issues k =
     (if k = ''No Epic'' then ''Issues without Epic''
      else (case find (\<lambda>x. ji_IssueType x = ''Epic'' \<and> ji_Key x = k) issues of
              None \<Rightarrow> [] | Some e \<Rightarrow> ji_Summary e))"

definition epicItems :: "(nat \<Rightarrow> string list \<Rightarrow> string list) \<Rightarrow> AggregatedData \<Rightarrow> string
    \<Rightarrow> RoadmapItem list" where
  "epicItems keyOrder data k =
     map jiraRoadmapItem
       (filter (\<lambda>i. ji_IssueType i \<noteq> ''Epic''
                    \<and> (if ji_EpicLink i \<noteq> [] then ji_EpicLink i else ''No Epic'') = k)
          (JiraIssues data))
     @ map (\<lambda>ng. githubRoadmapItem (snd ng))
         (filter (\<lambda>ng. githubEpicKey (keyOrder (fst ng) (map fst (snd (collectEpics (JiraIssues data)))))
                          (snd ng) = k)
            (enumerate 0 (GitHubIssues data)))"

subsection \<open>Colour indices of the kanban and Gantt formats\<close>

text \<open>
  \<open>generateKanbanFormat\<close> and \<open>generateGanttFormat\<close> are not unfolded, but each can
  panic, and that is kept. Both draw every Jira issue, GitHub issue and pull request (the
  three functions that map a status to a kanban column return one of the four columns
  only, and the Gantt format returns early only when there is nothing to draw), and for
  each they compute \<open>hash = 31*hash + int(c)\<close> over the runes \<open>c\<close> of the issue key or
  of the repository name (plus the issue number), in Go's 64-bit \<open>int\<close>, which wraps, and
  read \<open>colors[hash % len(colors)]\<close> from a palette of ten colours. The remainder has
  the sign of \<open>hash\<close>, so a negative hash that is not a multiple of ten reads the palette
  at a negative index, and the run panics.
\<close>

definition wrap64 :: "int \<Rightarrow> int" where
  "wrap64 x = (x + 9223372036854775808) mod 18446744073709551616 - 9223372036854775808"

text \<open>
  One step of \<open>range\<close> over a string: the rune at its head and the number of bytes it
  takes. Bytes that are no valid UTF-8 give U+FFFD and are passed one at a time.
\<close>

definition isCont :: "int \<Rightarrow> bool" where
  "isCont b = (128 \<le> b \<and> b \<le> 191)"

definition decodeRune :: "string \<Rightarrow> int \<times> nat" where
  "decodeRune s =
     (case map (\<lambda>c. int (of_char c)) (take 4 s) of
        [] \<Rightarrow> (65533, 1)
      | b0 # bs \<Rightarrow>
          if b0 < 128 then (b0, 1)
          else if 194 \<le> b0 \<and> b0 \<le> 223 then
            (case bs of
               b1 # _ \<Rightarrow> if isCont b1 then ((b0 mod 32) * 64 + b1 mod 64, 2) else (65533, 1)
             | _ \<Rightarrow> (65533, 1))
          else if 224 \<le> b0 \<and> b0 \<le> 239 then
            (case bs of
               b1 # b2 # _ \<Rightarrow>
                 if (if b0 = 224 then 160 else 128) \<le> b1 \<and> b1 \<le> (if b0 = 237 then 159 else 191)
                    \<and> isCont b2
                 then ((b0 mod 16) * 4096 + (b1 mod 64) * 64 + b2 mod 64, 3)
                 else (65533, 1)
             | _ \<Rightarrow> (65533, 1))
          else if 240 \<le> b0 \<and> b0 \<le> 244 then
            (case bs of
               b1 # b2 # b3 # _ \<Rightarrow>
                 if (if b0 = 240 then 144 else 128) \<le> b1 \<and> b1 \<le> (if b0 = 244 then 143 else 191)
                    \<and> isCont b2 \<and> isCont b3
                 then ((b0 mod 8) * 262144 + (b1 mod 64) * 4096 + (b2 mod 64) * 64 + b3 mod 64, 4)
                 else (65533, 1)
             | _ \<Rightarrow> (65533, 1))
          else (65533, 1))"

lemma decodeRune_size: "1 \<le> snd (decodeRune s)"
  by (simp add: decodeRune_def split: list.splits)

function runes :: "string \<Rightarrow> int list" where
  "runes s = (if s = [] then [] else fst (decodeRune s) # runes (drop (snd (decodeRune s)) s))"
  by pat_completeness auto
termination
proof (relation "measure length", goal_cases)
  case 1
  then show ?case by simp
next
  case (2 s)
  with decodeRune_size[of s] show ?case by (cases s) auto
qed

declare runes.simps [simp del]

definition stringHash :: "string \<Rightarrow> int" where
  "stringHash s = foldl (\<lambda>hash c. wrap64 (31 * hash + c)) 0 (runes s)"

text \<open>\<open>colors[hash % len(colors)]\<close> panics when the index is negative.\<close>

definition colorIndexPanics :: "int \<Rightarrow> bool" where
  "colorIndexPanics hash = (go_mod hash 10 < 0)"

definition anyColorPanics :: "AggregatedData \<Rightarrow> bool" where
  "anyColorPanics data =
     (list_ex (\<lambda>issue. colorIndexPanics (stringHash (ji_Key issue))) (JiraIssues data)
      \<or> list_ex (\<lambda>issue. colorIndexPanics (wrap64 (stringHash (gh_Repository issue) + gh_Number issue)))
           (GitHubIssues data)
      \<or> list_ex (\<lambda>pr. colorIndexPanics (wrap64 (stringHash (pr_Repository pr) + pr_Number pr)))
           (GitHubPRs data))"

subsection \<open>\<open>generateRoadmapFormat\<close> and \<open>Generate\<close>\<close>

definition addRoadmapLegend :: "fragment list" where
  \<open>addRoadmapLegend =
     [Text (''<ac:structured-macro ac:name="info">\<newline>''),
      Text (''<ac:rich-text-body>\<newline>''),
      Text (''<p><strong>Legend</strong></p>\<newline>''),
      Text (''<ul>\<newline>''),
      Text (''<li><span style="display:inline-block; width:20px; height:10px; background-color:#0052CC; margin-right:5px;"></span>Planned</li>\<newline>''),
      Text (''<li><span style="display:inline-block; width:20px; height:10px; background-color:#36B37E; margin-right:5px;"></span>In Progress</li>\<newline>''),
      Text (''<li><span style="display:inline-block; width:20px; height:10px; background-color:#FF8B00; margin-right:5px;"></span>At Risk</li>\<newline>''),
      Text (''<li><span style="display:inline-block; width:20px; height:10px; background-color:#FF5630; margin-right:5px;"></span>Blocked</li>\<newline>''),
      Text (''<li><span style="display:inline-block; width:20px; height:10px; background-color:#6554C0; margin-right:5px;"></span>Completed</li>\<newline>''),
      Text (''</ul>\<newline>''),
      Text (''<p><small>This roadmap shows planned work items with their expected timeframes.</small></p>\<newline>''),
      Text (''</ac:rich-text-body>\<newline>''),
      Text (''</ac:structured-macro>\<newline>'')]\<close>

text \<open>\<open>t.Format("January 2006")\<close>: the name of the month and the year in at least four
  digits.\<close>

definition monthName :: "int \<Rightarrow> string" where
  "monthName m =
     (if m = 1 then ''January'' else if m = 2 then ''February'' else if m = 3 then ''March''
      else if m = 4 then ''April'' else if m = 5 then ''May'' else if m = 6 then ''June''
      else if m = 7 then ''July'' else if m = 8 then ''August'' else if m = 9 then ''September''
      else if m = 10 then ''October'' else if m = 11 then ''November'' else ''December'')"

definition formatYear :: "int \<Rightarrow> string" where
  "formatYear y =
     (let ds = natToDec (nat \<bar>y\<bar>)
      in (if y < 0 then ''-'' else []) @ replicate (4 - length ds) CHR ''0'' @ ds)"

definition formatMonthYear :: "Time \<Rightarrow> string" where
  "formatMonthYear t = monthName (Month t) @ '' '' @ formatYear (Year t)"

text \<open>
  \<open>generateRoadmapFormat\<close>: the range of the timeframe (or twelve months from the first
  of the current month), the quarter axis, and the view chosen by \<open>opts.RoadmapView\<close>;
  a view name that is none of the four falls to the \<open>default\<close> branch of the switch,
  which renders the timeline view.
\<close>

definition generateRoadmapFormat :: "Time \<Rightarrow> (nat \<Rightarrow> string list \<Rightarrow> string list)
    \<Rightarrow> AggregatedData \<Rightarrow> Options \<Rightarrow> error + fragment list" where
  \<open>generateRoadmapFormat now keyOrder data opts =
     (let parsed = parseTimeframe now (opt_RoadmapTimeframe opts);
          startDate = (if IsZero (fst parsed) then Date (Year now) (Month now) 1 0 else fst parsed);
          endDate = (if IsZero (fst parsed) then AddDate startDate 1 0 0 else snd parsed);
          quarters = generateQuarters startDate endDate;
          timeline = TimelineMarkup data quarters (opt_RoadmapTimeframe opts)
                       (opt_RoadmapGrouping opts) (opt_IncludeDependencies opts);
          view =
            (if opt_RoadmapView opts = ''timeline'' then Inr [timeline]
             else if opt_RoadmapView opts = ''strategic''
               then Inr [StrategicMarkup data quarters (opt_IncludeDependencies opts)]
             else if opt_RoadmapView opts = ''release''
               then Inr [ReleaseMarkup data quarters (opt_RoadmapTimeframe opts)
                           (opt_IncludeDependencies opts)]
             else if opt_RoadmapView opts = ''epicgantt''
               then generateEpicGanttView now keyOrder data quarters opts
             else Inr [timeline])
      in case view of
           Inl e \<Rightarrow> Inl e
         | Inr body \<Rightarrow> Inr
             ([Text (''<h2>Roadmap</h2>\<newline>''),
               Text (''<p>This roadmap shows planned work for the period ''),
               Text (''<strong>'' @ formatMonthYear startDate @ ''</strong> to <strong>'' @ formatMonthYear endDate @ ''</strong>.</p>\<newline>'')]
              @ body @ addRoadmapLegend))\<close>

text \<open>
  \<open>Generate\<close> returns the content and a nil error, or no content and the error
  \<open>unsupported format\<close>; in the kanban and Gantt formats the run can panic instead. (Its
  call of the logger writes no content.)
\<close>

definition Generate :: "Time \<Rightarrow> (nat \<Rightarrow> string list \<Rightarrow> string list)
    \<Rightarrow> AggregatedData \<Rightarrow> Options \<Rightarrow> error + fragment list" where
  "Generate now keyOrder data opts =
     (let header = [HeaderMarkup data (opt_VersionLabel opts)];
          body =
            (if opt_Format opts = ''table'' then Inr [TableMarkup data]
             else if opt_Format opts = ''kanban'' then
               (if anyColorPanics data then Inl IndexOutOfRange else Inr [KanbanMarkup data])
             else if opt_Format opts = ''custom'' then Inr [CustomMarkup data]
             else if opt_Format opts = ''gantt'' then
               (if anyColorPanics data then Inl IndexOutOfRange else Inr [GanttMarkup data])
             else if opt_Format opts = ''roadmap'' then generateRoadmapFormat now keyOrder data opts
             else Inl (UnsupportedFormat (''unsupported format: '' @ opt_Format opts)))
      in case body of
           Inl e \<Rightarrow> Inl e
         | Inr b \<Rightarrow> Inr (header @ b @ (if opt_IncludeMetadata opts then [FooterMarkup data] else [])))"

text \<open>A roadmap request for the year 2025 whose view name is none of the four.\<close>

definition bogusViewOptions :: Options where
  "bogusViewOptions =
     \<lparr>opt_Format = ''roadmap'', opt_GroupBy = ''status'', opt_IncludeMetadata = False,
      opt_VersionLabel = [], opt_RoadmapTimeframe = ''Q1-Q4 2025'', opt_RoadmapGrouping = ''theme'',
      opt_RoadmapView = ''swimlane'', opt_IncludeDependencies = False\<rparr>"


text \<open>An epic, and a story linked to it.\<close>

definition epicAlpha :: JiraIssue where
  "epicAlpha = zeroJiraIssue\<lparr>ji_Key := ''PROJ-1'', ji_IssueType := ''Epic'', ji_Summary := ''Alpha'',
     ji_Status := ''In Progress'', ji_CreatedDate := day 2025 1 6, ji_UpdatedDate := day 2025 1 8\<rparr>"

definition ganttOptions :: Options where
  "ganttOptions = bogusViewOptions\<lparr>opt_RoadmapView := ''epicgantt''\<rparr>"

text \<open>An item whose description cell can be written: its issue pointer is set.\<close>

definition renderable :: "RoadmapItem \<Rightarrow> bool" where
  "renderable item = (\<exists>details. itemDetails item = Inr details)"


subsection \<open>Facts about status aggregation\<close>

lemma statusPriority_values:
  "statusPriority ''Blocked'' = 5" "statusPriority ''At Risk'' = 4"
  "statusPriority ''In Progress'' = 3" "statusPriority ''Planned'' = 2"
  "statusPriority ''Completed'' = 1"
  by (simp_all add: statusPriority_def)

lemma statusPriority_inj:
  assumes "a \<in> canonicalStatuses" "b \<in> canonicalStatuses"
    and "statusPriority a = statusPriority b"
  shows "a = b"
  using assms unfolding canonicalStatuses_def
  by (auto simp: statusPriority_values)

lemma statusPriority_pos: "a \<in> canonicalStatuses \<Longrightarrow> 0 < statusPriority a"
  unfolding canonicalStatuses_def by (auto simp: statusPriority_values)

lemma aggregateStatus_canonical:
  "a \<in> canonicalStatuses \<Longrightarrow> b \<in> canonicalStatuses \<Longrightarrow> aggregateStatus a b \<in> canonicalStatuses"
  by (simp add: aggregateStatus_def)

lemma aggregateStatus_priority:
  "statusPriority (aggregateStatus a b) = max (statusPriority a) (statusPriority b)"
  by (simp add: aggregateStatus_def)

lemma aggregateStatus_commute:
  assumes "a \<in> canonicalStatuses" "b \<in> canonicalStatuses"
  shows "aggregateStatus a b = aggregateStatus b a"
proof (cases "statusPriority a = statusPriority b")
  case True
  then have "a = b" using assms by (rule statusPriority_inj[rotated 2])
  then show ?thesis by simp
next
  case False
  then show ?thesis by (auto simp: aggregateStatus_def)
qed

lemma aggregateStatus_assoc:
  assumes "a \<in> canonicalStatuses" "b \<in> canonicalStatuses" "c \<in> canonicalStatuses"
  shows "aggregateStatus (aggregateStatus a b) c = aggregateStatus a (aggregateStatus b c)"
proof -
  have l: "aggregateStatus (aggregateStatus a b) c \<in> canonicalStatuses"
    by (simp add: aggregateStatus_canonical assms)
  have r: "aggregateStatus a (aggregateStatus b c) \<in> canonicalStatuses"
    by (simp add: aggregateStatus_canonical assms)
  have "statusPriority (aggregateStatus (aggregateStatus a b) c)
      = statusPriority (aggregateStatus a (aggregateStatus b c))"
    by (simp add: aggregateStatus_priority max.assoc)
  with l r show ?thesis by (rule statusPriority_inj)
qed

text \<open>Two aggregation steps with canonical statuses commute on every accumulator,
  canonical or not.\<close>

lemma aggregateStatus_step_commute:
  assumes "a \<in> canonicalStatuses" "b \<in> canonicalStatuses"
  shows "aggregateStatus (aggregateStatus s a) b = aggregateStatus (aggregateStatus s b) a"
proof (cases "statusPriority a = statusPriority b")
  case True
  then have "a = b" using assms by (rule statusPriority_inj[rotated 2])
  then show ?thesis by simp
next
  case False
  then show ?thesis by (auto simp: aggregateStatus_def)
qed

text \<open>
  Claim C6. On the five canonical statuses \<open>aggregateStatus\<close> is commutative and
  associative, its result has the larger of the two priorities (Blocked 5, At Risk 4,
  In Progress 3, Planned 2, Completed 1), and folding it over two lists that are
  permutations of each other, from the same starting status, gives the same status.
\<close>

theorem aggregateStatus_comm_assoc_fold:
  assumes "a \<in> canonicalStatuses" "b \<in> canonicalStatuses" "c \<in> canonicalStatuses"
    and "set xs \<subseteq> canonicalStatuses" "mset xs = mset ys"
  shows "aggregateStatus a b = aggregateStatus b a
       \<and> aggregateStatus (aggregateStatus a b) c = aggregateStatus a (aggregateStatus b c)
       \<and> statusPriority (aggregateStatus a b) = max (statusPriority a) (statusPriority b)
       \<and> aggregateStatus a b \<in> {a, b}
       \<and> fold (\<lambda>new cur. aggregateStatus cur new) xs s
           = fold (\<lambda>new cur. aggregateStatus cur new) ys s"
proof -
  have "fold (\<lambda>new cur. aggregateStatus cur new) xs = fold (\<lambda>new cur. aggregateStatus cur new) ys"
  proof (rule fold_multiset_equiv)
    show "mset xs = mset ys" by (rule assms(5))
  next
    fix x y assume "x \<in> set xs" "y \<in> set xs"
    then have "x \<in> canonicalStatuses" "y \<in> canonicalStatuses" using assms(4) by auto
    then show "(\<lambda>cur. aggregateStatus cur x) \<circ> (\<lambda>cur. aggregateStatus cur y)
             = (\<lambda>cur. aggregateStatus cur y) \<circ> (\<lambda>cur. aggregateStatus cur x)"
      by (auto simp: fun_eq_iff intro: aggregateStatus_step_commute)
  qed
  moreover have "aggregateStatus a b \<in> {a, b}" by (simp add: aggregateStatus_def)
  ultimately show ?thesis
    using aggregateStatus_commute[OF assms(1,2)] aggregateStatus_assoc[OF assms(1,2,3)]
      aggregateStatus_priority[of a b]
    by simp
qed

theorem aggregateStatus_comm_assoc_fold_witness:
  "aggregateStatus ''Planned'' ''Blocked'' = aggregateStatus ''Blocked'' ''Planned''
   \<and> aggregateStatus (aggregateStatus ''Planned'' ''Blocked'') ''Completed''
       = aggregateStatus ''Planned'' (aggregateStatus ''Blocked'' ''Completed'')
   \<and> statusPriority (aggregateStatus ''Planned'' ''Blocked'')
       = max (statusPriority ''Planned'') (statusPriority ''Blocked'')
   \<and> aggregateStatus ''Planned'' ''Blocked'' \<in> {''Planned'', ''Blocked''}
   \<and> fold (\<lambda>new cur. aggregateStatus cur new) [''Completed'', ''At Risk'', ''Planned''] ''Completed''
       = fold (\<lambda>new cur. aggregateStatus cur new) [''Planned'', ''Completed'', ''At Risk''] ''Completed''"
proof -
  have c: "''Planned'' \<in> canonicalStatuses" "''Blocked'' \<in> canonicalStatuses"
    "''Completed'' \<in> canonicalStatuses"
    by (simp_all add: canonicalStatuses_def)
  have s: "set [''Completed'', ''At Risk'', ''Planned''] \<subseteq> canonicalStatuses"
    by (simp add: canonicalStatuses_def)
  have m: "mset [''Completed'', ''At Risk'', ''Planned''] = mset [''Planned'', ''Completed'', ''At Risk'']"
    by simp
  show ?thesis
    by (rule aggregateStatus_comm_assoc_fold[OF c s m])
qed

subsection \<open>Facts about quarter placement\<close>





text \<open>
  Claim C10. An item whose start date or end date is nil is placed at \<open>(0, 0)\<close>, whatever
  the quarter axis holds.
\<close>

theorem getItemQuarters_nil_dates:
  assumes "ri_StartDate item = None \<or> ri_EndDate item = None"
  shows "getItemQuarters item quarters = (0, 0)"
  using assms by (auto simp: getItemQuarters_def split: option.splits)

theorem getItemQuarters_nil_dates_witness:
  "(ri_StartDate undatedItem = None \<or> ri_EndDate undatedItem = None)
   \<and> getItemQuarters undatedItem axis2025 = (0, 0)"
  using getItemQuarters_nil_dates[of undatedItem axis2025]
  by (simp add: undatedItem_def)




subsection \<open>Facts about normalisation\<close>

text \<open>
  Claim C7. An issue without a planned end date gets an inferred end date: the
  last-updated time when a ticket has status Done, Closed or Resolved or a host issue
  has state closed, and otherwise the inferred start date moved on by 14 days. The host
  issue in state open created on 2025-01-10 starts on 2025-01-10 and ends on 2025-01-24.
\<close>

theorem end_date_inference:
  assumes "ji_PlannedEndDate j = None" "gh_PlannedEndDate g = None"
  shows "(\<exists>start. ri_StartDate (jiraRoadmapItem j) = Some start
            \<and> ri_EndDate (jiraRoadmapItem j) =
                Some (if ji_Status j \<in> {''Done'', ''Closed'', ''Resolved''} then ji_UpdatedDate j
                      else AddDate start 0 0 14))
       \<and> (\<exists>start. ri_StartDate (githubRoadmapItem g) = Some start
            \<and> ri_EndDate (githubRoadmapItem g) =
                Some (if gh_State g = ''closed'' then gh_UpdatedDate g
                      else AddDate start 0 0 14))
       \<and> allItems (mkData [] [openHostIssue]) =
           [\<lparr>ri_Type = ''github-issue'', ri_JiraIssue = None, ri_GitHubIssue = Some openHostIssue,
             ri_Status = ''In Progress'', ri_StartDate = Some (day 2025 1 10),
             ri_EndDate = Some (day 2025 1 24)\<rparr>]"
proof -
  have "allItems (mkData [] [openHostIssue]) =
           [\<lparr>ri_Type = ''github-issue'', ri_JiraIssue = None, ri_GitHubIssue = Some openHostIssue,
             ri_Status = ''In Progress'', ri_StartDate = Some (day 2025 1 10),
             ri_EndDate = Some (day 2025 1 24)\<rparr>]"
    by code_simp
  then show ?thesis
    using assms
    by (simp add: jiraRoadmapItem_def jiraEndDate_def githubRoadmapItem_def githubEndDate_def)
qed

theorem end_date_inference_witness:
  "ji_PlannedEndDate doneIssue = None \<and> gh_PlannedEndDate openHostIssue = None
   \<and> ri_EndDate (jiraRoadmapItem doneIssue) = Some (day 2025 1 20)
   \<and> ri_EndDate (githubRoadmapItem openHostIssue) = Some (day 2025 1 24)"
proof -
  have j: "ji_PlannedEndDate doneIssue = None"
    by (simp add: doneIssue_def zeroJiraIssue_def)
  have g: "gh_PlannedEndDate openHostIssue = None"
    by (simp add: openHostIssue_def zeroGitHubIssue_def)
  have s: "ji_Status doneIssue = ''Done''" "ji_UpdatedDate doneIssue = day 2025 1 20"
    by (simp_all add: doneIssue_def)
  have o: "gh_State openHostIssue = ''open''" "githubStartDate openHostIssue = day 2025 1 10"
    by (simp_all add: openHostIssue_def githubStartDate_def zeroGitHubIssue_def)
  have a: "AddDate (day 2025 1 10) 0 0 14 = day 2025 1 24"
    by code_simp
  have st: "ri_StartDate (githubRoadmapItem openHostIssue) = Some (day 2025 1 10)"
    by (simp add: githubRoadmapItem_def o)
  from end_date_inference[OF j g] show ?thesis
    using j g s o a st by auto
qed

subsection \<open>Facts about milestones\<close>

text \<open>
  Claim C3, on the input where the code departs from it. A release whose only member is
  a finished ticket (item status Completed) gets the status Planned: the milestone is
  created with status Planned, and \<open>aggregateStatus\<close> never replaces Planned (priority
  2) by Completed (priority 1). Its target date is the planned end date of the ticket.
\<close>

theorem extractMilestones_completed_release:
  "extractMilestones (\<lambda>m. m) (mkData [releasedIssue] []) =
     [\<lparr>ms_Name = ''v1.0'', ms_TargetDate = day 2025 3 31, ms_Status = ''Planned'',
       ms_Items = [\<lparr>ri_Type = ''jira'', ri_JiraIssue = Some releasedIssue, ri_GitHubIssue = None,
                    ri_Status = ''Completed'', ri_StartDate = None, ri_EndDate = None\<rparr>]\<rparr>]"
  by code_simp

subsection \<open>Facts about grouping\<close>

lemma appendTo_Nil: "appendTo k x [] = [(k, [x])]"
  by (simp add: appendTo_def)

lemma appendTo_Cons:
  "appendTo k x (p # ps) = (if fst p = k then (k, snd p @ [x]) # ps else p # appendTo k x ps)"
  by (cases p) (auto simp: appendTo_def)

lemma keys_appendTo: "fst ` set (appendTo k x m) = insert k (fst ` set m)"
  by (induction m) (auto simp: appendTo_Nil appendTo_Cons)

lemma distinct_appendTo: "distinct (map fst m) \<Longrightarrow> distinct (map fst (appendTo k x m))"
proof (induction m)
  case Nil
  then show ?case by (simp add: appendTo_Nil)
next
  case (Cons p ps)
  have "fst p \<noteq> k \<Longrightarrow> fst p \<notin> fst ` set (appendTo k x ps)"
    using Cons.prems by (simp add: keys_appendTo)
  with Cons show ?case by (auto simp: appendTo_Cons)
qed

lemma mset_appendTo:
  "mset (concat (map snd (appendTo k x m))) = mset (concat (map snd m)) + {#x#}"
  by (induction m) (auto simp: appendTo_Nil appendTo_Cons)

lemma own_key_appendTo:
  assumes "\<forall>kv\<in>set m. \<forall>it\<in>set (snd kv). key it = Inr (fst kv)" "key x = Inr k"
  shows "\<forall>kv\<in>set (appendTo k x m). \<forall>it\<in>set (snd kv). key it = Inr (fst kv)"
  using assms by (induction m) (auto simp: appendTo_Nil appendTo_Cons)

lemma groupLoop_partition:
  assumes "\<forall>it\<in>set items. \<exists>k. key it = Inr k"
    and "distinct (map fst G)"
    and "\<forall>kv\<in>set G. \<forall>it\<in>set (snd kv). key it = Inr (fst kv)"
  shows "\<exists>G'. groupLoop key items G = Inr G' \<and> distinct (map fst G')
           \<and> (\<forall>kv\<in>set G'. \<forall>it\<in>set (snd kv). key it = Inr (fst kv))
           \<and> mset (concat (map snd G')) = mset (concat (map snd G)) + mset items"
  using assms
proof (induction items arbitrary: G)
  case Nil
  then show ?case by simp
next
  case (Cons x xs)
  from Cons.prems(1) obtain k where k: "key x = Inr k" by auto
  have t: "\<forall>it\<in>set xs. \<exists>k. key it = Inr k" using Cons.prems(1) by simp
  have d: "distinct (map fst (appendTo k x G))"
    using Cons.prems(2) by (rule distinct_appendTo)
  have o: "\<forall>kv\<in>set (appendTo k x G). \<forall>it\<in>set (snd kv). key it = Inr (fst kv)"
    using Cons.prems(3) k by (rule own_key_appendTo)
  from Cons.IH[OF t d o] obtain G' where
    G': "groupLoop key xs (appendTo k x G) = Inr G'" "distinct (map fst G')"
      "\<forall>kv\<in>set G'. \<forall>it\<in>set (snd kv). key it = Inr (fst kv)"
      "mset (concat (map snd G')) = mset (concat (map snd (appendTo k x G))) + mset xs"
    by blast
  have "groupLoop key (x # xs) G = Inr G'" using k G'(1) by simp
  moreover have "mset (concat (map snd G')) = mset (concat (map snd G)) + mset (x # xs)"
    using G'(4) by (simp add: mset_appendTo)
  ultimately show ?case using G'(2,3) by blast
qed

lemma allItems_cases:
  assumes "item \<in> set (allItems data)"
  shows "(\<exists>j. item = jiraRoadmapItem j) \<or> (\<exists>g. item = githubRoadmapItem g)"
  using assms by (auto simp: allItems_def)

lemma group_keys_total:
  assumes "item \<in> set (allItems data)"
  shows "\<exists>k. epicGroupKey item = Inr k" "\<exists>k. themeGroupKey item = Inr k"
    "\<exists>k. teamGroupKey item = Inr k" "\<exists>k. quarterGroupKey item = Inr k"
  using allItems_cases[OF assms]
  by (auto simp: epicGroupKey_def themeGroupKey_def teamGroupKey_def quarterGroupKey_def
      jiraRoadmapItem_def githubRoadmapItem_def Let_def)

lemma partition_from_invariants:
  assumes d: "distinct (map fst G)"
    and o: "\<forall>kv\<in>set G. \<forall>it\<in>set (snd kv). key it = Inr (fst kv)"
    and m: "mset (concat (map snd G)) = mset items"
  shows "\<forall>item\<in>set items. \<exists>!kv. kv \<in> set G \<and> item \<in> set (snd kv)"
proof
  fix item assume "item \<in> set items"
  then have "item \<in> set (concat (map snd G))"
    using m by (metis set_mset_mset)
  then obtain kv where kv: "kv \<in> set G" "item \<in> set (snd kv)" by auto
  show "\<exists>!kv. kv \<in> set G \<and> item \<in> set (snd kv)"
  proof (rule ex1I[of _ kv])
    show "kv \<in> set G \<and> item \<in> set (snd kv)" using kv by simp
  next
    fix kv' assume a: "kv' \<in> set G \<and> item \<in> set (snd kv')"
    then have "key item = Inr (fst kv')" using o by blast
    moreover have "key item = Inr (fst kv)" using o kv by blast
    ultimately have "fst kv' = fst kv" by simp
    with d a kv(1) show "kv' = kv"
      by (metis eq_key_imp_eq_value prod.collapse)
  qed
qed

text \<open>
  Claim C5. Under every grouping key, \<open>groupRoadmapItems\<close> returns a map (it never
  panics) whose groups partition the normalised items: the groups taken together hold
  every item as often as the input does, and every item lies in exactly one group.
\<close>

theorem groupRoadmapItems_partition:
  "\<exists>G. groupRoadmapItems data grouping = Inr G
       \<and> distinct (map fst G)
       \<and> mset (concat (map snd G)) = mset (allItems data)
       \<and> (\<forall>item\<in>set (allItems data). \<exists>!kv. kv \<in> set G \<and> item \<in> set (snd kv))"
proof -
  have loop: "\<exists>G. groupLoop key (allItems data) [] = Inr G \<and> distinct (map fst G)
       \<and> mset (concat (map snd G)) = mset (allItems data)
       \<and> (\<forall>item\<in>set (allItems data). \<exists>!kv. kv \<in> set G \<and> item \<in> set (snd kv))"
    if t: "\<forall>it\<in>set (allItems data). \<exists>k. key it = Inr k" for key
  proof -
    from groupLoop_partition[OF t, of "[]"] obtain G where
      G: "groupLoop key (allItems data) [] = Inr G" "distinct (map fst G)"
        "\<forall>kv\<in>set G. \<forall>it\<in>set (snd kv). key it = Inr (fst kv)"
        "mset (concat (map snd G)) = mset (allItems data)"
      by auto
    from partition_from_invariants[OF G(2,3,4)] G(1,2,4) show ?thesis by blast
  qed
  consider "grouping = ''epic''" | "grouping \<noteq> ''epic''" "grouping = ''theme''"
    | "grouping \<noteq> ''epic''" "grouping \<noteq> ''theme''" "grouping = ''team''"
    | "grouping \<noteq> ''epic''" "grouping \<noteq> ''theme''" "grouping \<noteq> ''team''" "grouping = ''quarter''"
    | "grouping \<noteq> ''epic''" "grouping \<noteq> ''theme''" "grouping \<noteq> ''team''" "grouping \<noteq> ''quarter''"
    by blast
  then show ?thesis
  proof cases
    case 1
    have "groupRoadmapItems data grouping = groupLoop epicGroupKey (allItems data) []"
      using 1 by (simp add: groupRoadmapItems_def)
    then show ?thesis using loop[of epicGroupKey] group_keys_total(1)[of _ data] by simp
  next
    case 2
    have "groupRoadmapItems data grouping = groupLoop themeGroupKey (allItems data) []"
      using 2 by (simp add: groupRoadmapItems_def)
    then show ?thesis using loop[of themeGroupKey] group_keys_total(2)[of _ data] by simp
  next
    case 3
    have "groupRoadmapItems data grouping = groupLoop teamGroupKey (allItems data) []"
      using 3 by (simp add: groupRoadmapItems_def)
    then show ?thesis using loop[of teamGroupKey] group_keys_total(3)[of _ data] by simp
  next
    case 4
    have "groupRoadmapItems data grouping = groupLoop quarterGroupKey (allItems data) []"
      using 4 by (simp add: groupRoadmapItems_def)
    then show ?thesis using loop[of quarterGroupKey] group_keys_total(4)[of _ data] by simp
  next
    case 5
    have "groupRoadmapItems data grouping = Inr [(''All Items'', allItems data)]"
      using 5 by (simp add: groupRoadmapItems_def)
    then show ?thesis by auto
  qed
qed

theorem groupRoadmapItems_partition_witness:
  "groupRoadmapItems (mkData [linkedIssue] [openHostIssue]) ''epic'' =
     Inr [(''PROJ-1'', [jiraRoadmapItem linkedIssue]), (''No Epic'', [githubRoadmapItem openHostIssue])]
   \<and> allItems (mkData [linkedIssue] [openHostIssue]) =
       [jiraRoadmapItem linkedIssue, githubRoadmapItem openHostIssue]
   \<and> (\<exists>G. groupRoadmapItems (mkData [linkedIssue] [openHostIssue]) ''epic'' = Inr G
         \<and> mset (concat (map snd G)) = mset (allItems (mkData [linkedIssue] [openHostIssue])))"
proof -
  have a: "groupRoadmapItems (mkData [linkedIssue] [openHostIssue]) ''epic'' =
     Inr [(''PROJ-1'', [jiraRoadmapItem linkedIssue]), (''No Epic'', [githubRoadmapItem openHostIssue])]"
    by code_simp
  have b: "allItems (mkData [linkedIssue] [openHostIssue]) =
       [jiraRoadmapItem linkedIssue, githubRoadmapItem openHostIssue]"
    by (simp add: allItems_def mkData_def)
  from groupRoadmapItems_partition[of "mkData [linkedIssue] [openHostIssue]" "''epic''"]
  have "\<exists>G. groupRoadmapItems (mkData [linkedIssue] [openHostIssue]) ''epic'' = Inr G
         \<and> mset (concat (map snd G)) = mset (allItems (mkData [linkedIssue] [openHostIssue]))"
    by blast
  with a b show ?thesis by blast
qed

subsection \<open>Facts about the quarter axis\<close>

lemma set_firstSeen: "set (firstSeen ls) = set ls"
  by (induction ls) auto

lemma distinct_firstSeen: "distinct (firstSeen ls)"
  by (induction ls) (auto simp: set_firstSeen)

lemma generateQuartersLoop_firstSeen:
  "generateQuartersLoop current endTime quarters =
     quarters @ filter (\<lambda>l. l \<notin> set quarters)
                  (firstSeen (map timeQuarterLabel (monthSteps current endTime)))"
proof (induction current endTime quarters rule: generateQuartersLoop.induct)
  case (1 current endTime quarters)
  show ?case
  proof (cases "Before current endTime")
    case False
    then show ?thesis
      by (simp add: generateQuartersLoop.simps[of current] monthSteps.simps[of current])
  next
    case True
    let ?q = "timeQuarterLabel current"
    let ?rest = "firstSeen (map timeQuarterLabel (monthSteps (AddDate current 0 1 0) endTime))"
    have steps: "firstSeen (map timeQuarterLabel (monthSteps current endTime))
                 = ?q # filter (\<lambda>x. x \<noteq> ?q) ?rest"
      using True by (simp add: monthSteps.simps[of current])
    show ?thesis
    proof (cases "?q \<in> set quarters")
      case in_q: True
      have "generateQuartersLoop current endTime quarters
            = generateQuartersLoop (AddDate current 0 1 0) endTime quarters"
        using True in_q by (simp add: generateQuartersLoop.simps[of current] Let_def)
      also have "\<dots> = quarters @ filter (\<lambda>l. l \<notin> set quarters) ?rest"
        using "1.IH"[OF True refl refl refl] in_q by simp
      also have "filter (\<lambda>l. l \<notin> set quarters) ?rest
            = filter (\<lambda>l. l \<notin> set quarters) (?q # filter (\<lambda>x. x \<noteq> ?q) ?rest)"
        using in_q by (auto intro: filter_cong)
      finally show ?thesis by (simp only: steps)
    next
      case not_q: False
      have "generateQuartersLoop current endTime quarters
            = generateQuartersLoop (AddDate current 0 1 0) endTime (quarters @ [?q])"
        using True not_q by (simp add: generateQuartersLoop.simps[of current] Let_def)
      also have "\<dots> = (quarters @ [?q]) @ filter (\<lambda>l. l \<notin> set (quarters @ [?q])) ?rest"
        using "1.IH"[OF True refl refl refl] not_q by simp
      also have "\<dots> = quarters @ filter (\<lambda>l. l \<notin> set quarters) (?q # filter (\<lambda>x. x \<noteq> ?q) ?rest)"
        using not_q by (auto intro: filter_cong)
      finally show ?thesis by (simp only: steps)
    qed
  qed
qed

lemma Before_AddDate_month:
  assumes "validTime t"
  shows "Before t (AddDate t 0 1 0)"
proof -
  have v: "validTime (AddDate t 0 1 0)" by (simp add: AddDate_def validTime_Date)
  from monthIndex_AddDate_month[OF assms] assms v show ?thesis
    by (auto simp: Before_def validTime_def monthIndex_def)
qed

lemma Before_trans: "Before a b \<Longrightarrow> Before b c \<Longrightarrow> Before a c"
  by (auto simp: Before_def)

lemma monthSteps_after:
  "validTime current \<Longrightarrow> x \<in> set (monthSteps current endTime) \<Longrightarrow> x = current \<or> Before current x"
proof (induction current endTime rule: monthSteps.induct)
  case (1 current endTime)
  show ?case
  proof (cases "Before current endTime")
    case False
    with "1.prems" show ?thesis by (simp add: monthSteps.simps[of current])
  next
    case True
    have v: "validTime (AddDate current 0 1 0)" by (simp add: AddDate_def validTime_Date)
    from "1.prems"(2) True
    consider "x = current" | "x \<in> set (monthSteps (AddDate current 0 1 0) endTime)"
      by (auto simp: monthSteps.simps[of current])
    then show ?thesis
    proof cases
      case 1
      then show ?thesis by simp
    next
      case 2
      from "1.IH"[OF True v 2] Before_AddDate_month[OF "1.prems"(1)]
      show ?thesis by (auto intro: Before_trans)
    qed
  qed
qed

lemma monthSteps_sorted:
  "validTime current \<Longrightarrow> sorted_wrt Before (monthSteps current endTime)"
proof (induction current endTime rule: monthSteps.induct)
  case (1 current endTime)
  show ?case
  proof (cases "Before current endTime")
    case False
    then show ?thesis by (simp add: monthSteps.simps[of current])
  next
    case True
    have v: "validTime (AddDate current 0 1 0)" by (simp add: AddDate_def validTime_Date)
    have "Before current x" if "x \<in> set (monthSteps (AddDate current 0 1 0) endTime)" for x
      using monthSteps_after[OF v that] Before_AddDate_month[OF "1.prems"]
      by (auto intro: Before_trans)
    with "1.IH"[OF True v] True show ?thesis
      by (simp add: monthSteps.simps[of current])
  qed
qed

text \<open>
  Claim C9. For a range whose start is before its end, \<open>generateQuarters\<close> returns
  (the loop terminates; the function is total) at least one label and no label twice.
  The labels are those of the dates visited month by month from the start while before
  the end, each kept at its first occurrence, so the first label is the quarter of the
  start date. The visited dates begin with the start and, for a start date as
  \<open>time.Date\<close> returns it, each is before the next.
\<close>

theorem generateQuarters_axis:
  assumes "Before start endTime"
  shows "1 \<le> length (generateQuarters start endTime)
       \<and> distinct (generateQuarters start endTime)
       \<and> generateQuarters start endTime = firstSeen (map timeQuarterLabel (monthSteps start endTime))
       \<and> monthSteps start endTime = start # monthSteps (AddDate start 0 1 0) endTime
       \<and> hd (generateQuarters start endTime) = timeQuarterLabel start
       \<and> list_all (\<lambda>t. Before t endTime) (monthSteps start endTime)
       \<and> (validTime start \<longrightarrow> sorted_wrt Before (monthSteps start endTime))"
proof -
  have eq: "generateQuarters start endTime = firstSeen (map timeQuarterLabel (monthSteps start endTime))"
    by (simp add: generateQuarters_def generateQuartersLoop_firstSeen)
  have st: "monthSteps start endTime = start # monthSteps (AddDate start 0 1 0) endTime"
    using assms by (simp add: monthSteps.simps[of start])
  have all: "list_all (\<lambda>t. Before t e) (monthSteps c e)" for c e
  proof (induction c e rule: monthSteps.induct)
    case (1 c e)
    then show ?case by (cases "Before c e") (simp_all add: monthSteps.simps[of c])
  qed
  have "generateQuarters start endTime
        = timeQuarterLabel start # filter (\<lambda>x. x \<noteq> timeQuarterLabel start)
            (firstSeen (map timeQuarterLabel (monthSteps (AddDate start 0 1 0) endTime)))"
    by (simp add: eq st)
  then have "1 \<le> length (generateQuarters start endTime)"
    "hd (generateQuarters start endTime) = timeQuarterLabel start"
    by simp_all
  moreover have "distinct (generateQuarters start endTime)"
    by (simp add: eq distinct_firstSeen)
  ultimately show ?thesis
    using eq st all[of endTime start] monthSteps_sorted[of start endTime] by simp
qed

theorem generateQuarters_axis_witness:
  "Before (day 2025 1 31) (day 2025 5 1)
   \<and> generateQuarters (day 2025 1 31) (day 2025 5 1) = [''Q1 2025'', ''Q2 2025'']
   \<and> monthSteps (day 2025 1 31) (day 2025 5 1) = [day 2025 1 31, day 2025 3 3, day 2025 4 3]
   \<and> 1 \<le> length (generateQuarters (day 2025 1 31) (day 2025 5 1))
   \<and> distinct (generateQuarters (day 2025 1 31) (day 2025 5 1))"
proof -
  have b: "Before (day 2025 1 31) (day 2025 5 1)" by (simp add: Before_def day_def)
  have g: "generateQuarters (day 2025 1 31) (day 2025 5 1) = [''Q1 2025'', ''Q2 2025'']"
    by code_simp
  have m: "monthSteps (day 2025 1 31) (day 2025 5 1) = [day 2025 1 31, day 2025 3 3, day 2025 4 3]"
    by code_simp
  from generateQuarters_axis[OF b] b g m show ?thesis by simp
qed

subsection \<open>Facts about timeframes\<close>

lemma quarter_range_2025_parts:
  "Contains ''Q1-Q4 2025'' ''-''" "Contains ''Q1-Q4 2025'' ''Q''"
  "Split ''Q1-Q4 2025'' CHR ''-'' = [''Q1'', ''Q4 2025'']"
  "TrimSpace (TrimPrefix (TrimSpace (TrimPrefix (TrimSpace (TrimPrefix
     (TrimSpace (TrimPrefix ''Q4 2025'' ''Q1'')) ''Q2'')) ''Q3'')) ''Q4'') = ''2025''"
  "sscanInt ''2025'' = 2025"
  "sscanQ (TrimSpace ''Q1'') = 1"
  "sscanQ (TrimSpace ''Q4 2025'') = 4"
  by code_simp+

lemma quarter_range_2025_dates:
  "Date 2025 1 1 0 = day 2025 1 1"
  "AddDate (Date 2025 12 1 0) 0 1 0 = day 2026 1 1"
  by code_simp+

lemma generateQuarters_2025:
  "generateQuarters (day 2025 1 1) (day 2026 1 1)
     = [''Q1 2025'', ''Q2 2025'', ''Q3 2025'', ''Q4 2025'']"
  by code_simp

lemma parseTimeframe_2025_range:
  "parseTimeframe now ''Q1-Q4 2025'' = (day 2025 1 1, day 2026 1 1)"
proof -
  have m: "parseMonths now ''Q1-Q4 2025'' = None"
    by (simp add: parseMonths_def HasSuffix_def)
  have y: "parseYears now ''Q1-Q4 2025'' = None"
    by (simp add: parseYears_def HasSuffix_def)
  have q: "parseQuarterRange ''Q1-Q4 2025'' = Some (day 2025 1 1, day 2026 1 1)"
    by (simp add: parseQuarterRange_def Let_def quarter_range_2025_parts quarter_range_2025_dates
        del: Contains.simps)
  show ?thesis
    by (simp add: parseTimeframe_def m y q)
qed

text \<open>
  Claim C8. Whatever the clock reads, the timeframe \<open>Q1-Q4 2025\<close> is parsed to the range
  from 2025-01-01 to 2026-01-01, and the quarter axis of that range is Q1 2025, Q2 2025,
  Q3 2025, Q4 2025.
\<close>

theorem parseTimeframe_Q1_Q4_2025:
  "parseTimeframe now ''Q1-Q4 2025'' = (day 2025 1 1, day 2026 1 1)
   \<and> generateQuarters (fst (parseTimeframe now ''Q1-Q4 2025'')) (snd (parseTimeframe now ''Q1-Q4 2025''))
       = [''Q1 2025'', ''Q2 2025'', ''Q3 2025'', ''Q4 2025'']"
  by (simp only: parseTimeframe_2025_range fst_conv snd_conv generateQuarters_2025)

subsection \<open>Facts about the epic Gantt view\<close>

lemma map_of_mapPut: "map_of (mapPut k v m) = (map_of m)(k \<mapsto> v)"
  by (induction m) (auto simp: fun_eq_iff)

lemma mapGet_appendTo:
  "mapGet [] (appendTo k x m) k' = (if k' = k then mapGet [] m k @ [x] else mapGet [] m k')"
  by (simp add: mapGet_def appendTo_def map_of_mapPut)

text \<open>The first pass.\<close>

lemma collectEpicStep_keys:
  assumes "\<forall>k. map_of (snd st) k \<noteq> None \<longrightarrow> k \<in> set (fst st)"
  shows "(\<forall>k. map_of (snd (fold collectEpicStep issues st)) k \<noteq> None
            \<longrightarrow> k \<in> set (fst (fold collectEpicStep issues st)))
       \<and> set (fst st) \<subseteq> set (fst (fold collectEpicStep issues st))
       \<and> (\<forall>e\<in>set issues. ji_IssueType e = ''Epic''
            \<longrightarrow> ji_Key e \<in> set (fst (fold collectEpicStep issues st)))"
  using assms
proof (induction issues arbitrary: st)
  case Nil
  then show ?case by simp
next
  case (Cons x xs)
  have inv: "\<forall>k. map_of (snd (collectEpicStep x st)) k \<noteq> None \<longrightarrow> k \<in> set (fst (collectEpicStep x st))"
    using Cons.prems by (auto simp: collectEpicStep_def Let_def map_of_mapPut)
  have sub: "set (fst st) \<subseteq> set (fst (collectEpicStep x st))"
    by (auto simp: collectEpicStep_def Let_def)
  have here: "ji_IssueType x = ''Epic'' \<Longrightarrow> ji_Key x \<in> set (fst (collectEpicStep x st))"
    using Cons.prems by (auto simp: collectEpicStep_def Let_def)
  from Cons.IH[OF inv] sub here show ?case by auto
qed

lemma collectEpicStep_names:
  "map_of (snd (fold collectEpicStep issues st)) k =
     (case map_of (snd st) k of
        Some v \<Rightarrow> Some v
      | None \<Rightarrow> map_option ji_Summary
                  (find (\<lambda>x. ji_IssueType x = ''Epic'' \<and> ji_Key x = k) issues))"
proof (induction issues arbitrary: st)
  case Nil
  then show ?case by (simp split: option.splits)
next
  case (Cons x xs)
  show ?case
    by (simp add: Cons.IH) (auto simp: collectEpicStep_def Let_def map_of_mapPut split: option.splits)
qed

lemma collectEpics_facts:
  "''No Epic'' \<in> set (fst (collectEpics issues))"
  "mapGet [] (snd (collectEpics issues)) ''No Epic'' = ''Issues without Epic''"
  "e \<in> set issues \<Longrightarrow> ji_IssueType e = ''Epic'' \<Longrightarrow> ji_Key e \<in> set (fst (collectEpics issues))"
  "k \<noteq> ''No Epic'' \<Longrightarrow> map_of (snd (collectEpics issues)) k =
     map_option ji_Summary (find (\<lambda>x. ji_IssueType x = ''Epic'' \<and> ji_Key x = k) issues)"
proof -
  show "''No Epic'' \<in> set (fst (collectEpics issues))"
    by (simp add: collectEpics_def Let_def)
  show "mapGet [] (snd (collectEpics issues)) ''No Epic'' = ''Issues without Epic''"
    by (simp add: collectEpics_def Let_def mapGet_def map_of_mapPut)
  show "ji_Key e \<in> set (fst (collectEpics issues))"
    if "e \<in> set issues" "ji_IssueType e = ''Epic''"
    using collectEpicStep_keys[of "([], [])" issues] that
    by (simp add: collectEpics_def Let_def)
  show "map_of (snd (collectEpics issues)) k =
     map_option ji_Summary (find (\<lambda>x. ji_IssueType x = ''Epic'' \<and> ji_Key x = k) issues)"
    if "k \<noteq> ''No Epic''"
    using that collectEpicStep_names[of issues "([], [])" k]
    by (simp add: collectEpics_def Let_def map_of_mapPut)
qed

text \<open>The second and third pass: a group that has an item keeps it, and every item of
  every group can be rendered.\<close>

lemma renderable_items: "renderable (jiraRoadmapItem j)" "renderable (githubRoadmapItem g)"
  by (simp_all add: renderable_def itemDetails_def jiraRoadmapItem_def githubRoadmapItem_def)

lemma groupJiraStep_nonempty:
  "mapGet [] m k \<noteq> [] \<Longrightarrow> mapGet [] (groupJiraStep x m) k \<noteq> []"
  by (simp add: groupJiraStep_def Let_def mapGet_appendTo)

lemma groupJira_nonempty:
  "mapGet [] m k \<noteq> [] \<Longrightarrow> mapGet [] (fold groupJiraStep issues m) k \<noteq> []"
  by (induction issues arbitrary: m) (simp_all add: groupJiraStep_nonempty)

lemma groupJira_linked:
  assumes "i \<in> set issues" "ji_IssueType i \<noteq> ''Epic''" "ji_EpicLink i = k" "k \<noteq> []"
  shows "mapGet [] (fold groupJiraStep issues m) k \<noteq> []"
  using assms(1)
proof (induction issues arbitrary: m)
  case Nil
  then show ?case by simp
next
  case (Cons x xs)
  show ?case
  proof (cases "x = i")
    case True
    have "mapGet [] (groupJiraStep x m) k \<noteq> []"
      using True assms(2,3,4) by (simp add: groupJiraStep_def Let_def mapGet_appendTo)
    then show ?thesis by (simp add: groupJira_nonempty)
  next
    case False
    with Cons.prems have "i \<in> set xs" by simp
    from Cons.IH[OF this] show ?thesis by simp
  qed
qed

lemma groupGitHub_nonempty:
  "mapGet [] m k \<noteq> [] \<Longrightarrow> mapGet [] (groupGitHubLoop keyOrder names n issues m) k \<noteq> []"
  by (induction issues arbitrary: m n) (simp_all add: Let_def mapGet_appendTo)

lemma groupJira_renderable:
  "\<forall>k. \<forall>it\<in>set (mapGet [] m k). renderable it \<Longrightarrow>
   \<forall>k. \<forall>it\<in>set (mapGet [] (fold groupJiraStep issues m) k). renderable it"
proof (induction issues arbitrary: m)
  case Nil
  then show ?case by simp
next
  case (Cons x xs)
  have "\<forall>k. \<forall>it\<in>set (mapGet [] (groupJiraStep x m) k). renderable it"
    using Cons.prems by (auto simp: groupJiraStep_def Let_def mapGet_appendTo renderable_items)
  from Cons.IH[OF this] show ?case by simp
qed

lemma groupGitHub_renderable:
  "\<forall>k. \<forall>it\<in>set (mapGet [] m k). renderable it \<Longrightarrow>
   \<forall>k. \<forall>it\<in>set (mapGet [] (groupGitHubLoop keyOrder names n issues m) k). renderable it"
proof (induction issues arbitrary: m n)
  case Nil
  then show ?case by simp
next
  case (Cons x xs)
  have "\<forall>k. \<forall>it\<in>set (mapGet [] (appendTo
          (githubEpicKey (keyOrder n (map fst names)) x) (githubRoadmapItem x) m) k). renderable it"
    using Cons.prems by (auto simp: mapGet_appendTo renderable_items)
  from Cons.IH[OF this] show ?case by (simp add: Let_def)
qed

text \<open>Rows.\<close>

lemma collectE_total:
  assumes "\<forall>x\<in>set xs. \<exists>r. f x = Inr r"
  shows "\<exists>out. collectE f xs = Inr out \<and> (\<forall>x\<in>set xs. \<forall>r. f x = Inr r \<longrightarrow> sublist r out)"
  using assms
proof (induction xs)
  case Nil
  then show ?case by simp
next
  case (Cons x xs)
  from Cons.prems obtain r where r: "f x = Inr r" by auto
  from Cons obtain rs where
    rs: "collectE f xs = Inr rs" "\<forall>y\<in>set xs. \<forall>r. f y = Inr r \<longrightarrow> sublist r rs"
    by auto
  have "collectE f (x # xs) = Inr (r @ rs)" using r rs(1) by simp
  moreover have "sublist r (r @ rs)" by (rule sublist_append_rightI)
  moreover have "sublist r' (r @ rs)" if "sublist r' rs" for r'
    using that by (metis sublist_append_leftI sublist_order.order_trans)
  ultimately show ?case using r rs(2) by auto
qed

lemma itemRow_total: "renderable item \<Longrightarrow> \<exists>r. itemRow quarters item = Inr r"
  by (auto simp: renderable_def itemRow_def)

lemma epicRows_total:
  assumes "\<forall>it\<in>set (mapGet [] epicMap k). renderable it"
  shows "\<exists>r. epicRows names epicMap quarters k = Inr r"
proof -
  from collectE_total[of "mapGet [] epicMap k" "itemRow quarters"] assms itemRow_total
  obtain rows where "collectE (itemRow quarters) (mapGet [] epicMap k) = Inr rows" by blast
  then show ?thesis by (simp add: epicRows_def)
qed

lemma epicRows_header:
  assumes "epicRows names epicMap quarters k = Inr r"
    and "mapGet [] epicMap k \<noteq> [] \<or> k = ''No Epic''"
  shows "sublist (epicHeaderRow (mapGet [] names k) quarters) r"
  using assms by (auto simp: epicRows_def split: sum.splits if_splits)

lemma generateEpicGanttView_rows:
  "\<exists>rows out. generateEpicGanttView now keyOrder data quarters0 opts = Inr out
     \<and> sublist rows out
     \<and> (\<forall>k\<in>set (fst (collectEpics (JiraIssues data))).
          mapGet [] (groupGitHubLoop keyOrder (snd (collectEpics (JiraIssues data))) 0 (GitHubIssues data)
                      (fold groupJiraStep (JiraIssues data) [])) k \<noteq> [] \<or> k = ''No Epic''
          \<longrightarrow> sublist (epicHeaderRow (mapGet [] (snd (collectEpics (JiraIssues data))) k)
                         (if quarters0 = [] then generateQuartersFromNow now 4 else quarters0)) rows)"
proof -
  let ?names = "snd (collectEpics (JiraIssues data))"
  let ?map = "groupGitHubLoop keyOrder ?names 0 (GitHubIssues data) (fold groupJiraStep (JiraIssues data) [])"
  let ?qs = "if quarters0 = [] then generateQuartersFromNow now 4 else quarters0"
  have "\<forall>k. \<forall>it\<in>set (mapGet [] ([] :: RoadmapItem list gomap) k). renderable it"
    by (simp add: mapGet_def)
  then have ren: "\<forall>k. \<forall>it\<in>set (mapGet [] ?map k). renderable it"
    by (intro groupGitHub_renderable groupJira_renderable)
  then have tot: "\<forall>k\<in>set (fst (collectEpics (JiraIssues data))). \<exists>r. epicRows ?names ?map ?qs k = Inr r"
    using epicRows_total by blast
  from collectE_total[OF tot] obtain rows where
    rows: "collectE (epicRows ?names ?map ?qs) (fst (collectEpics (JiraIssues data))) = Inr rows"
      "\<forall>k\<in>set (fst (collectEpics (JiraIssues data))). \<forall>r. epicRows ?names ?map ?qs k = Inr r \<longrightarrow> sublist r rows"
    by blast
  let ?out = "ganttIntro @ ganttTableHead ?qs @ rows @ ganttTableEnd @ ganttLegend
              @ (if opt_IncludeDependencies opts then addDependenciesVisualization data else [])"
  have g: "generateEpicGanttView now keyOrder data quarters0 opts = Inr ?out"
    using rows(1) by (simp add: generateEpicGanttView_def Let_def)
  have s: "sublist rows ?out"
    by (metis append.assoc sublist_appendI)
  have h: "sublist (epicHeaderRow (mapGet [] ?names k) ?qs) rows"
    if k: "k \<in> set (fst (collectEpics (JiraIssues data)))" and ne: "mapGet [] ?map k \<noteq> [] \<or> k = ''No Epic''" for k
  proof -
    from tot k obtain r where r: "epicRows ?names ?map ?qs k = Inr r" by blast
    have a: "sublist (epicHeaderRow (mapGet [] ?names k) ?qs) r"
      by (rule epicRows_header[OF r ne])
    have b: "sublist r rows" using rows(2) k r by blast
    from a b show ?thesis by (rule sublist_order.order_trans)
  qed
  from g s h show ?thesis by blast
qed

lemma collectEpicStep_order:
  assumes "\<forall>k. (map_of (snd st) k \<noteq> None) = (k \<in> set (fst st))"
  shows "fst (fold collectEpicStep issues st) =
           fst st @ filter (\<lambda>k. k \<notin> set (fst st))
                      (firstSeen (map ji_Key (filter (\<lambda>i. ji_IssueType i = ''Epic'') issues)))"
  using assms
proof (induction issues arbitrary: st)
  case Nil
  then show ?case by simp
next
  case (Cons x xs)
  show ?case
  proof (cases "ji_IssueType x = ''Epic''")
    case False
    then have "collectEpicStep x st = st" by (simp add: collectEpicStep_def)
    with Cons.IH[OF Cons.prems] False show ?thesis by simp
  next
    case True
    let ?rest = "firstSeen (map ji_Key (filter (\<lambda>i. ji_IssueType i = ''Epic'') xs))"
    show ?thesis
    proof (cases "ji_Key x \<in> set (fst st)")
      case in_st: True
      then have "map_of (snd st) (ji_Key x) \<noteq> None" using Cons.prems by blast
      then have "collectEpicStep x st = st"
        by (auto simp: collectEpicStep_def Let_def)
      moreover have "filter (\<lambda>k. k \<notin> set (fst st)) (filter (\<lambda>k. k \<noteq> ji_Key x) ?rest)
                     = filter (\<lambda>k. k \<notin> set (fst st)) ?rest"
        using in_st by (auto intro: filter_cong)
      ultimately show ?thesis
        using Cons.IH[OF Cons.prems] True in_st by simp
    next
      case not_st: False
      let ?st' = "(fst st @ [ji_Key x], mapPut (ji_Key x) (ji_Summary x) (snd st))"
      have "map_of (snd st) (ji_Key x) = None" using Cons.prems not_st by blast
      then have step: "collectEpicStep x st = ?st'"
        using True by (simp add: collectEpicStep_def Let_def)
      have inv: "\<forall>k. (map_of (snd ?st') k \<noteq> None) = (k \<in> set (fst ?st'))"
        using Cons.prems by (auto simp: map_of_mapPut)
      have "filter (\<lambda>k. k \<notin> set (fst ?st')) ?rest
            = filter (\<lambda>k. k \<notin> set (fst st)) (filter (\<lambda>k. k \<noteq> ji_Key x) ?rest)"
        by (auto intro: filter_cong)
      with Cons.IH[OF inv] step True not_st show ?thesis by simp
    qed
  qed
qed

lemma collectEpics_order: "fst (collectEpics issues) = epicKeysInOrder issues"
  using collectEpicStep_order[of "([], [])" issues]
  by (simp add: collectEpics_def epicKeysInOrder_def Let_def)

lemma collectEpics_name: "mapGet [] (snd (collectEpics issues)) k = epicName issues k"
proof (cases "k = ''No Epic''")
  case True
  then show ?thesis using collectEpics_facts(2)[of issues] by (simp add: epicName_def)
next
  case False
  from collectEpics_facts(4)[OF False, of issues] False show ?thesis
    by (simp add: mapGet_def epicName_def split: option.splits)
qed

lemma groupJira_items:
  "mapGet [] (fold groupJiraStep issues m) k =
     mapGet [] m k @ map jiraRoadmapItem
       (filter (\<lambda>i. ji_IssueType i \<noteq> ''Epic''
                    \<and> (if ji_EpicLink i \<noteq> [] then ji_EpicLink i else ''No Epic'') = k) issues)"
  by (induction issues arbitrary: m) (auto simp: groupJiraStep_def Let_def mapGet_appendTo)

lemma groupGitHub_items:
  "mapGet [] (groupGitHubLoop keyOrder names n issues m) k =
     mapGet [] m k @ map (\<lambda>ng. githubRoadmapItem (snd ng))
       (filter (\<lambda>ng. githubEpicKey (keyOrder (fst ng) (map fst names)) (snd ng) = k)
          (enumerate n issues))"
  by (induction issues arbitrary: m n) (auto simp: Let_def mapGet_appendTo)

lemma epicMap_items:
  "mapGet [] (groupGitHubLoop keyOrder (snd (collectEpics (JiraIssues data))) 0 (GitHubIssues data)
               (fold groupJiraStep (JiraIssues data) [])) k
   = epicItems keyOrder data k"
proof -
  have "mapGet [] ([] :: RoadmapItem list gomap) k = []" by (simp add: mapGet_def)
  then show ?thesis
    by (simp add: groupGitHub_items groupJira_items epicItems_def)
qed

lemma collectE_concat:
  assumes "\<forall>x\<in>set xs. f x = Inr (g x)"
  shows "collectE f xs = Inr (concat (map g xs))"
  using assms by (induction xs) auto

lemma epicItems_renderable: "it \<in> set (epicItems keyOrder data k) \<Longrightarrow> renderable it"
  by (auto simp: epicItems_def renderable_items)

lemma generateEpicGanttView_exact:
  "\<exists>itemRows.
     (\<forall>k. collectE (itemRow (if quarters0 = [] then generateQuartersFromNow now 4 else quarters0))
             (epicItems keyOrder data k) = Inr (itemRows k))
     \<and> generateEpicGanttView now keyOrder data quarters0 opts =
         Inr (ganttIntro
              @ ganttTableHead (if quarters0 = [] then generateQuartersFromNow now 4 else quarters0)
              @ concat (map (\<lambda>k. if epicItems keyOrder data k = [] \<and> k \<noteq> ''No Epic'' then []
                                 else epicHeaderRow (epicName (JiraIssues data) k)
                                        (if quarters0 = [] then generateQuartersFromNow now 4
                                         else quarters0)
                                      @ itemRows k)
                          (epicKeysInOrder (JiraIssues data)))
              @ ganttTableEnd @ ganttLegend
              @ (if opt_IncludeDependencies opts then addDependenciesVisualization data else []))"
proof -
  let ?qs = "if quarters0 = [] then generateQuartersFromNow now 4 else quarters0"
  let ?names = "snd (collectEpics (JiraIssues data))"
  let ?map = "groupGitHubLoop keyOrder ?names 0 (GitHubIssues data) (fold groupJiraStep (JiraIssues data) [])"
  have "\<forall>k. \<exists>r. collectE (itemRow ?qs) (epicItems keyOrder data k) = Inr r"
  proof
    fix k
    have "\<forall>it\<in>set (epicItems keyOrder data k). \<exists>r. itemRow ?qs it = Inr r"
      using epicItems_renderable itemRow_total by blast
    from collectE_total[OF this]
    show "\<exists>r. collectE (itemRow ?qs) (epicItems keyOrder data k) = Inr r" by auto
  qed
  then have "\<exists>f. \<forall>k. collectE (itemRow ?qs) (epicItems keyOrder data k) = Inr (f k)"
    by (rule choice)
  then obtain itemRows where
    ir: "\<And>k. collectE (itemRow ?qs) (epicItems keyOrder data k) = Inr (itemRows k)"
    by blast
  let ?block = "\<lambda>k. if epicItems keyOrder data k = [] \<and> k \<noteq> ''No Epic'' then []
                     else epicHeaderRow (epicName (JiraIssues data) k) ?qs @ itemRows k"
  have block: "epicRows ?names ?map ?qs k = Inr (?block k)" for k
    by (simp add: epicRows_def epicMap_items collectEpics_name ir)
  have "collectE (epicRows ?names ?map ?qs) (fst (collectEpics (JiraIssues data)))
        = Inr (concat (map ?block (epicKeysInOrder (JiraIssues data))))"
    unfolding collectEpics_order by (rule collectE_concat) (simp add: block)
  then have "generateEpicGanttView now keyOrder data quarters0 opts =
         Inr (ganttIntro @ ganttTableHead ?qs
              @ concat (map ?block (epicKeysInOrder (JiraIssues data)))
              @ ganttTableEnd @ ganttLegend
              @ (if opt_IncludeDependencies opts then addDependenciesVisualization data else []))"
    by (simp add: generateEpicGanttView_def Let_def)
  with ir show ?thesis by blast
qed

text \<open>
  Claim C4, as the code has it. The epic Gantt view always returns its content (no nil
  pointer is read). Its groups are the keys of the Jira issues of type \<open>Epic\<close> in order
  of first appearance, followed by the fallback \<open>No Epic\<close>. Between the head and the
  end of the table the view writes, for each group in that order, nothing when the group
  is an epic under whose key no item is grouped (\<open>Skip epics with no issues\<close>), and
  otherwise the header row of the group (with the summary of the first epic with that
  key, or \<open>Issues without Epic\<close> for the fallback) followed by the rows of its items. So
  the header row of the fallback group is always in the content, and so is the header
  row of every epic to which some Jira issue that is not an epic links. The axis is the
  one passed in, or four quarters from the clock when that is empty.
\<close>

theorem epicGantt_header_rows:
  "\<exists>itemRows out.
     (\<forall>k. collectE (itemRow (if quarters0 = [] then generateQuartersFromNow now 4 else quarters0))
             (epicItems keyOrder data k) = Inr (itemRows k))
     \<and> generateEpicGanttView now keyOrder data quarters0 opts = Inr out
     \<and> out = ganttIntro
              @ ganttTableHead (if quarters0 = [] then generateQuartersFromNow now 4 else quarters0)
              @ concat (map (\<lambda>k. if epicItems keyOrder data k = [] \<and> k \<noteq> ''No Epic'' then []
                                 else epicHeaderRow (epicName (JiraIssues data) k)
                                        (if quarters0 = [] then generateQuartersFromNow now 4
                                         else quarters0)
                                      @ itemRows k)
                          (epicKeysInOrder (JiraIssues data)))
              @ ganttTableEnd @ ganttLegend
              @ (if opt_IncludeDependencies opts then addDependenciesVisualization data else [])
     \<and> sublist (epicHeaderRow ''Issues without Epic''
                  (if quarters0 = [] then generateQuartersFromNow now 4 else quarters0)) out
     \<and> (\<forall>e\<in>set (JiraIssues data). \<forall>i\<in>set (JiraIssues data).
           ji_IssueType e = ''Epic'' \<and> ji_Key e \<noteq> [] \<and> ji_IssueType i \<noteq> ''Epic''
             \<and> ji_EpicLink i = ji_Key e \<longrightarrow>
           (\<exists>first. find (\<lambda>x. ji_IssueType x = ''Epic'' \<and> ji_Key x = ji_Key e) (JiraIssues data)
                      = Some first
              \<and> sublist (epicHeaderRow (if ji_Key e = ''No Epic'' then ''Issues without Epic''
                                         else ji_Summary first)
                           (if quarters0 = [] then generateQuartersFromNow now 4 else quarters0)) out))"
proof -
  let ?J = "JiraIssues data"
  let ?names = "snd (collectEpics ?J)"
  let ?map = "groupGitHubLoop keyOrder ?names 0 (GitHubIssues data) (fold groupJiraStep ?J [])"
  let ?qs = "if quarters0 = [] then generateQuartersFromNow now 4 else quarters0"
  from generateEpicGanttView_rows[of now keyOrder data quarters0 opts] obtain rows out where
    out: "generateEpicGanttView now keyOrder data quarters0 opts = Inr out"
    and sub: "sublist rows out"
    and hdr: "\<And>k. k \<in> set (fst (collectEpics ?J)) \<Longrightarrow> mapGet [] ?map k \<noteq> [] \<or> k = ''No Epic''
                \<Longrightarrow> sublist (epicHeaderRow (mapGet [] ?names k) ?qs) rows"
    by blast
  from generateEpicGanttView_exact[of quarters0 now keyOrder data opts] obtain itemRows where
    ir: "\<forall>k. collectE (itemRow ?qs) (epicItems keyOrder data k) = Inr (itemRows k)"
    and exact: "generateEpicGanttView now keyOrder data quarters0 opts =
         Inr (ganttIntro @ ganttTableHead ?qs
              @ concat (map (\<lambda>k. if epicItems keyOrder data k = [] \<and> k \<noteq> ''No Epic'' then []
                                 else epicHeaderRow (epicName ?J k) ?qs @ itemRows k)
                          (epicKeysInOrder ?J))
              @ ganttTableEnd @ ganttLegend
              @ (if opt_IncludeDependencies opts then addDependenciesVisualization data else []))"
    by blast
  have shape: "out = ganttIntro @ ganttTableHead ?qs
              @ concat (map (\<lambda>k. if epicItems keyOrder data k = [] \<and> k \<noteq> ''No Epic'' then []
                                 else epicHeaderRow (epicName ?J k) ?qs @ itemRows k)
                          (epicKeysInOrder ?J))
              @ ganttTableEnd @ ganttLegend
              @ (if opt_IncludeDependencies opts then addDependenciesVisualization data else [])"
    using out exact by simp
  have lift: "sublist r out" if "sublist r rows" for r
    using that sub by (rule sublist_order.order_trans)
  have fallback: "sublist (epicHeaderRow ''Issues without Epic'' ?qs) out"
    using hdr[of "''No Epic''"] collectEpics_facts(1,2)[of ?J] lift by simp
  have epic: "\<exists>first. find (\<lambda>x. ji_IssueType x = ''Epic'' \<and> ji_Key x = ji_Key e) ?J = Some first
              \<and> sublist (epicHeaderRow (if ji_Key e = ''No Epic'' then ''Issues without Epic''
                                         else ji_Summary first) ?qs) out"
    if e: "e \<in> set ?J" "ji_IssueType e = ''Epic''" "ji_Key e \<noteq> []"
      and i: "i \<in> set ?J" "ji_IssueType i \<noteq> ''Epic''" "ji_EpicLink i = ji_Key e" for e i
  proof -
    have "find (\<lambda>x. ji_IssueType x = ''Epic'' \<and> ji_Key x = ji_Key e) ?J \<noteq> None"
      using e(1,2) by (auto simp: find_None_iff)
    then obtain first where
      first: "find (\<lambda>x. ji_IssueType x = ''Epic'' \<and> ji_Key x = ji_Key e) ?J = Some first"
      by auto
    have k: "ji_Key e \<in> set (fst (collectEpics ?J))"
      using e(1,2) by (rule collectEpics_facts(3))
    have "mapGet [] (fold groupJiraStep ?J []) (ji_Key e) \<noteq> []"
      using i e(3) by (rule groupJira_linked)
    then have ne: "mapGet [] ?map (ji_Key e) \<noteq> []"
      by (rule groupGitHub_nonempty)
    have name: "mapGet [] ?names (ji_Key e) =
        (if ji_Key e = ''No Epic'' then ''Issues without Epic'' else ji_Summary first)"
    proof (cases "ji_Key e = ''No Epic''")
      case True
      then show ?thesis using collectEpics_facts(2)[of ?J] by simp
    next
      case False
      from collectEpics_facts(4)[OF False, of ?J] first False show ?thesis
        by (simp add: mapGet_def)
    qed
    from hdr[OF k] ne have "sublist (epicHeaderRow (mapGet [] ?names (ji_Key e)) ?qs) rows"
      by blast
    then have "sublist (epicHeaderRow (if ji_Key e = ''No Epic'' then ''Issues without Epic''
                                       else ji_Summary first) ?qs) out"
      unfolding name by (rule lift)
    with first show ?thesis by blast
  qed
  from ir out shape fallback epic show ?thesis by blast
qed

theorem epicGantt_header_rows_witness:
  "epicAlpha \<in> set (JiraIssues (mkData [epicAlpha, linkedIssue] [openHostIssue]))
   \<and> linkedIssue \<in> set (JiraIssues (mkData [epicAlpha, linkedIssue] [openHostIssue]))
   \<and> ji_IssueType epicAlpha = ''Epic'' \<and> ji_IssueType linkedIssue \<noteq> ''Epic''
   \<and> ji_EpicLink linkedIssue = ji_Key epicAlpha
   \<and> epicKeysInOrder (JiraIssues (mkData [epicAlpha, linkedIssue] [openHostIssue]))
       = [''PROJ-1'', ''No Epic'']
   \<and> (\<exists>out. generateEpicGanttView (day 2025 3 15) (\<lambda>n keys. keys)
               (mkData [epicAlpha, linkedIssue] [openHostIssue]) axis2025 ganttOptions = Inr out
          \<and> sublist (epicHeaderRow ''Issues without Epic'' axis2025) out
          \<and> sublist (epicHeaderRow ''Alpha'' axis2025) out)"
proof -
  let ?d = "mkData [epicAlpha, linkedIssue] [openHostIssue]"
  have m: "epicAlpha \<in> set (JiraIssues ?d)" "linkedIssue \<in> set (JiraIssues ?d)"
    by (simp_all add: mkData_def)
  have t: "ji_IssueType epicAlpha = ''Epic''" "ji_IssueType linkedIssue \<noteq> ''Epic''"
    "ji_EpicLink linkedIssue = ji_Key epicAlpha" "ji_Key epicAlpha \<noteq> []"
    "ji_Key epicAlpha \<noteq> ''No Epic''" "ji_Summary epicAlpha = ''Alpha''"
    by (simp_all add: epicAlpha_def linkedIssue_def)
  have ks: "epicKeysInOrder (JiraIssues ?d) = [''PROJ-1'', ''No Epic'']"
    by (simp add: epicKeysInOrder_def mkData_def epicAlpha_def linkedIssue_def)
  have f: "find (\<lambda>x. ji_IssueType x = ''Epic'' \<and> ji_Key x = ji_Key epicAlpha) (JiraIssues ?d)
           = Some epicAlpha"
    using t(1) by (simp add: mkData_def)
  have a: "axis2025 \<noteq> []" by (simp add: axis2025_def)
  from epicGantt_header_rows[of axis2025 "day 2025 3 15" "\<lambda>n keys. keys" ?d ganttOptions]
  obtain out where
    out: "generateEpicGanttView (day 2025 3 15) (\<lambda>n keys. keys) ?d axis2025 ganttOptions = Inr out"
      "sublist (epicHeaderRow ''Issues without Epic'' axis2025) out"
    and all: "\<forall>e\<in>set (JiraIssues ?d). \<forall>i\<in>set (JiraIssues ?d).
           ji_IssueType e = ''Epic'' \<and> ji_Key e \<noteq> [] \<and> ji_IssueType i \<noteq> ''Epic''
             \<and> ji_EpicLink i = ji_Key e \<longrightarrow>
           (\<exists>first. find (\<lambda>x. ji_IssueType x = ''Epic'' \<and> ji_Key x = ji_Key e) (JiraIssues ?d)
                      = Some first
              \<and> sublist (epicHeaderRow (if ji_Key e = ''No Epic'' then ''Issues without Epic''
                                         else ji_Summary first) axis2025) out)"
    using a by auto
  from all m t(1,2,3,4) have
    "\<exists>first. find (\<lambda>x. ji_IssueType x = ''Epic'' \<and> ji_Key x = ji_Key epicAlpha) (JiraIssues ?d)
                = Some first
        \<and> sublist (epicHeaderRow (if ji_Key epicAlpha = ''No Epic'' then ''Issues without Epic''
                                   else ji_Summary first) axis2025) out"
    by blast
  then have "sublist (epicHeaderRow ''Alpha'' axis2025) out"
    using f t(5,6) by auto
  with out m t ks show ?thesis by blast
qed

text \<open>
  The claim as written fails: for an epic to which no item is linked, the view renders
  the fallback header row only; no piece of the output is the header cell of the epic.
\<close>

lemma lonely_epic_render:
  "generateEpicGanttView (day 2025 3 15) (\<lambda>n keys. keys) (mkData [epicAlpha] []) axis2025 ganttOptions
     = Inr (ganttIntro @ ganttTableHead axis2025 @ epicHeaderRow ''Issues without Epic'' axis2025
            @ ganttTableEnd @ ganttLegend)"
proof -
  have c: "collectEpics [epicAlpha] =
      ([''PROJ-1'', ''No Epic''], [(''PROJ-1'', ''Alpha''), (''No Epic'', ''Issues without Epic'')])"
    by (simp add: collectEpics_def collectEpicStep_def epicAlpha_def Let_def)
  have g: "groupJiraStep epicAlpha [] = []"
    by (simp add: groupJiraStep_def epicAlpha_def)
  have o: "\<not> opt_IncludeDependencies ganttOptions"
    by (simp add: ganttOptions_def bogusViewOptions_def)
  have a: "axis2025 \<noteq> []" by (simp add: axis2025_def)
  show ?thesis
    using a by (simp add: generateEpicGanttView_def Let_def mkData_def c g o epicRows_def mapGet_def)
qed

theorem epicGantt_lonely_epic_counterexample:
  "ji_IssueType epicAlpha = ''Epic'' \<and> ji_Summary epicAlpha = ''Alpha''
   \<and> generateEpicGanttView (day 2025 3 15) (\<lambda>n keys. keys) (mkData [epicAlpha] []) axis2025 ganttOptions
       = Inr (ganttIntro @ ganttTableHead axis2025 @ epicHeaderRow ''Issues without Epic'' axis2025
              @ ganttTableEnd @ ganttLegend)
   \<and> epicHeaderCell ''Alpha'' \<notin> set (ganttIntro @ ganttTableHead axis2025
         @ epicHeaderRow ''Issues without Epic'' axis2025 @ ganttTableEnd @ ganttLegend)"
proof -
  have 1: "epicHeaderCell ''Alpha'' \<notin> set ganttIntro"
    by (simp add: epicHeaderCell_def ganttIntro_def)
  have 2: "epicHeaderCell ''Alpha'' \<notin> set (ganttTableHead axis2025)"
    by (simp add: epicHeaderCell_def ganttTableHead_def axis2025_def)
  have 3: "epicHeaderCell ''Alpha'' \<notin> set (epicHeaderRow ''Issues without Epic'' axis2025)"
    by (simp add: epicHeaderRow_def epicHeaderCell_def axis2025_def escapeHTML_def escapeChar_def)
  have 4: "epicHeaderCell ''Alpha'' \<notin> set ganttTableEnd"
    by (simp add: epicHeaderCell_def ganttTableEnd_def)
  have 5: "epicHeaderCell ''Alpha'' \<notin> set ganttLegend"
    by (simp add: epicHeaderCell_def ganttLegend_def)
  have t: "ji_IssueType epicAlpha = ''Epic''" "ji_Summary epicAlpha = ''Alpha''"
    by (simp_all add: epicAlpha_def)
  from 1 2 3 4 5 t lonely_epic_render show ?thesis by simp
qed

subsection \<open>Facts about \<open>Generate\<close>\<close>







text \<open>
  The panic of the kanban format: the hash of the repository name
  \<open>krzko/jiragitfluence\<close> wraps to a negative number, and with issue number 1 the colour
  index is -1.
\<close>

lemma Generate_kanban_negative_index:
  "go_mod (wrap64 (stringHash ''krzko/jiragitfluence'' + 1)) 10 = - 1
   \<and> Generate now keyOrder
        (mkData [] [zeroGitHubIssue\<lparr>gh_Repository := ''krzko/jiragitfluence'', gh_Number := 1\<rparr>])
        (bogusViewOptions\<lparr>opt_Format := ''kanban''\<rparr>) = Inl IndexOutOfRange"
proof -
  have h: "go_mod (wrap64 (stringHash ''krzko/jiragitfluence'' + 1)) 10 = - 1"
    by code_simp
  then have "anyColorPanics
      (mkData [] [zeroGitHubIssue\<lparr>gh_Repository := ''krzko/jiragitfluence'', gh_Number := 1\<rparr>])"
    by (simp add: anyColorPanics_def colorIndexPanics_def mkData_def)
  with h show ?thesis by (simp add: Generate_def)
qed




end
